theory Spec2Isabelle
  imports Complex_Main
begin

section \<open>JavaScript strings\<close>

text \<open>
  A JavaScript string is modelled as a \<^typ>\<open>string\<close>, one \<^typ>\<open>char\<close> per code unit; the
  model covers the code units below 256. On those, the regular-expression class \<open>\s\<close>
  and \<open>String.prototype.trim\<close> recognise the same seven characters: tab, line feed,
  vertical tab, form feed, carriage return, space and no-break space.
\<close>

definition isWhiteSpace :: "char \<Rightarrow> bool" where
  "isWhiteSpace c =
     (c = CHR 0x09 \<or> c = CHR 0x0A \<or> c = CHR 0x0B \<or> c = CHR 0x0C \<or> c = CHR 0x0D
      \<or> c = CHR 0x20 \<or> c = CHR 0xA0)"

text \<open>
  \<open>s.replace(/re/g, r)\<close>: the text is scanned from the left. At each position the
  expression is tried; a \<open>matcher\<close> returns the replacement and the text after the
  match when the expression matches at the head of its argument. After a match the scan
  resumes behind it, otherwise the character is kept and the scan moves on by one. None
  of the expressions of this program matches the empty string; the guard on the length
  only makes the recursion well founded.
\<close>

type_synonym matcher = "string \<Rightarrow> (string \<times> string) option"

function replaceAll :: "matcher \<Rightarrow> string \<Rightarrow> string" where
  "replaceAll m s =
     (case m s of
        Some (rep, rest) \<Rightarrow>
          (if length rest < length s then rep @ replaceAll m rest
           else (case s of [] \<Rightarrow> [] | c # r \<Rightarrow> c # replaceAll m r))
      | None \<Rightarrow> (case s of [] \<Rightarrow> [] | c # r \<Rightarrow> c # replaceAll m r))"
  by pat_completeness auto
termination
  by (relation "measure (\<lambda>(m, s). length s)") auto

declare replaceAll.simps [simp del]

text \<open>\<open>/[<>]/\<close>, \<open>/\*/\<close> and \<open>/`/\<close>: one character of a class.\<close>

definition matchChar :: "(char \<Rightarrow> bool) \<Rightarrow> matcher" where
  "matchChar P s = (case s of [] \<Rightarrow> None | c # r \<Rightarrow> if P c then Some ([], r) else None)"

definition reTag :: matcher where
  "reTag = matchChar (\<lambda>c. c = CHR ''<'' \<or> c = CHR ''>'')"

definition reStar :: matcher where
  "reStar = matchChar (\<lambda>c. c = CHR ''*'')"

definition reTick :: matcher where
  "reTick = matchChar (\<lambda>c. c = CHR 0x60)"

text \<open>\<open>/\*\*/\<close>: two asterisks.\<close>

definition reBold :: matcher where
  "reBold s =
     (case s of
        a # b # r \<Rightarrow> if a = CHR ''*'' \<and> b = CHR ''*'' then Some ([], r) else None
      | _ \<Rightarrow> None)"

text \<open>
  \<open>/#{1,6}\s/\<close>: the greedy quantifier takes six \<open>#\<close> first and gives them back one by
  one until a white-space character follows; \<open>headerTry k\<close> tries \<open>k\<close> of them, then
  fewer.
\<close>

fun headerTry :: "nat \<Rightarrow> string \<Rightarrow> (string \<times> string) option" where
  "headerTry 0 s = None"
| "headerTry (Suc k) s =
     (if take (Suc k) s = replicate (Suc k) (CHR ''#'')
         \<and> (case drop (Suc k) s of [] \<Rightarrow> False | w # r \<Rightarrow> isWhiteSpace w)
      then Some ([], drop (Suc (Suc k)) s)
      else headerTry k s)"

definition reHeader :: matcher where
  "reHeader s = headerTry 6 s"

text \<open>
  \<open>/\[([^\]]+)\]\([^)]+\)/\<close> with the replacement \<open>$1\<close>: an opening bracket, the
  longest run of characters other than \<open>]\<close> (the label, not empty), \<open>](\<close>, the longest
  run of characters other than \<open>)\<close> (not empty) and \<open>)\<close>. A shorter run can never be
  followed by the closing delimiter, so backtracking finds no other match. The match is
  replaced by the label.
\<close>

definition reLink :: matcher where
  "reLink s =
     (case s of
        [] \<Rightarrow> None
      | c # r \<Rightarrow>
          if c \<noteq> CHR ''['' then None
          else
            (let label = takeWhile (\<lambda>x. x \<noteq> CHR '']'') r;
                 r1 = dropWhile (\<lambda>x. x \<noteq> CHR '']'') r
             in if label = [] then None
                else
                  (case r1 of
                     a # b # r2 \<Rightarrow>
                       if b \<noteq> CHR ''('' then None
                       else
                         (let url = takeWhile (\<lambda>x. x \<noteq> CHR '')'') r2;
                              r3 = dropWhile (\<lambda>x. x \<noteq> CHR '')'') r2
                          in if url = [] then None
                             else (case r3 of [] \<Rightarrow> None | d # rest \<Rightarrow> Some (label, rest)))
                   | _ \<Rightarrow> None)))"

definition trim :: "string \<Rightarrow> string" where
  "trim s = rev (dropWhile isWhiteSpace (rev (dropWhile isWhiteSpace s)))"

section \<open>The sanitizer (\<open>BaseVoiceProvider.sanitizeText\<close>)\<close>

definition sanitizeText :: "string \<Rightarrow> string" where
  "sanitizeText text =
     trim
       (replaceAll reLink
         (replaceAll reHeader
           (replaceAll reTick
             (replaceAll reStar
               (replaceAll reBold
                 (replaceAll reTag text))))))"

text \<open>\<open>s.replace(/"/g, '""')\<close> of the Windows provider.\<close>

definition reQuote :: matcher where
  "reQuote s =
     (case s of [] \<Rightarrow> None
      | c # r \<Rightarrow> if c = CHR 0x22 then Some ([CHR 0x22, CHR 0x22], r) else None)"

text \<open>\<open>s.split(d)\<close> for a one-character separator; the empty string gives one empty field.\<close>

fun splitOn :: "char \<Rightarrow> string \<Rightarrow> string list" where
  "splitOn d [] = [[]]"
| "splitOn d (c # r) =
     (if c = d then [] # splitOn d r
      else (case splitOn d r of [] \<Rightarrow> [[c]] | x # xs \<Rightarrow> (c # x) # xs))"

text \<open>\<open>s.toLowerCase()\<close> on code units below 256: \<open>A\<close> to \<open>Z\<close> and the Latin-1 capitals.\<close>

definition lowerChar :: "char \<Rightarrow> char" where
  "lowerChar c =
     (let n = (of_char c :: nat)
      in if (65 \<le> n \<and> n \<le> 90) \<or> (192 \<le> n \<and> n \<le> 222 \<and> n \<noteq> 215)
         then char_of (n + 32) else c)"

definition toLowerCase :: "string \<Rightarrow> string" where
  "toLowerCase s = map lowerChar s"

text \<open>The decimal form of an integer, as a template literal prints an integral number.\<close>

fun showNat :: "nat \<Rightarrow> string" where
  "showNat n = (if n < 10 then [char_of (48 + n)] else showNat (n div 10) @ [char_of (48 + n mod 10)])"

declare showNat.simps [simp del]

definition showInt :: "int \<Rightarrow> string" where
  "showInt i = (if i < 0 then CHR ''-'' # showNat (nat (- i)) else showNat (nat i))"

section \<open>Numbers, options and the outside world\<close>

text \<open>
  A JavaScript number is modelled by the real it denotes (no NaN, no infinities, no
  rounding of the division). \<open>Math.round\<close> rounds to the nearest integer, a half
  towards plus infinity.
\<close>

definition Math_round :: "real \<Rightarrow> int" where
  "Math_round x = \<lfloor>x + 1 / 2\<rfloor>"

record VoiceOptions =
  voice :: "string option"
  rate :: "real option"
  pitch :: "real option"
  volume :: "real option"

text \<open>\<open>options?.voice\<close>, \<open>options?.rate\<close>, \<open>options?.pitch\<close>: absent options give undefined.\<close>

definition optVoice :: "VoiceOptions option \<Rightarrow> string option" where
  "optVoice options = (case options of None \<Rightarrow> None | Some v \<Rightarrow> voice v)"

definition optRate :: "VoiceOptions option \<Rightarrow> real option" where
  "optRate options = (case options of None \<Rightarrow> None | Some v \<Rightarrow> rate v)"

definition optPitch :: "VoiceOptions option \<Rightarrow> real option" where
  "optPitch options = (case options of None \<Rightarrow> None | Some v \<Rightarrow> pitch v)"

text \<open>Truthiness: an undefined value, the empty string and zero are falsy.\<close>

definition truthyStr :: "string option \<Rightarrow> bool" where
  "truthyStr v = (case v of None \<Rightarrow> False | Some s \<Rightarrow> s \<noteq> [])"

definition truthyNum :: "real option \<Rightarrow> bool" where
  "truthyNum v = (case v of None \<Rightarrow> False | Some r \<Rightarrow> r \<noteq> 0)"

text \<open>
  An argument of a spawned process: a string, or a number printed by \<open>toString()\<close> or
  by \<open>toFixed(2)\<close>; the number is kept, not its digits.
\<close>

datatype arg = Lit string | NumToString real | NumToFixed2 real

datatype json = JString string | JNumber real | JObject "(string \<times> json) list"

record http_request =
  url :: string
  httpMethod :: string
  headers :: "(string \<times> string) list"
  body :: "json option"

text \<open>
  A response: \<open>ok\<close>, \<open>status\<close>, the body as text, and what \<open>response.json()\<close> followed
  by \<open>data.voices.map(...)\<close> reads (the \<open>voice_id\<close> and \<open>name\<close> of each entry; \<open>None\<close>
  when the body does not parse or has no such array, which throws).
\<close>

record http_response =
  ok :: bool
  status :: int
  bodyText :: string
  bodyVoices :: "(string \<times> string) list option"

datatype fetch_result = FetchFailed string | Response http_response

text \<open>A spawned process emits \<open>error\<close>, or exits with a code after writing its output.\<close>

datatype proc_result = SpawnError string | Exited int string string

record world =
  platform :: string
  spawn :: "string \<Rightarrow> arg list \<Rightarrow> proc_result"
  fetch :: "http_request \<Rightarrow> fetch_result"
  writeFile :: "string \<Rightarrow> string option"
  now :: int

datatype effect =
    Spawn string "arg list"
  | Fetch http_request
  | Write string string

text \<open>
  \<open>Error m\<close>: the promise is rejected (an exception is thrown) with message \<open>m\<close>.
  \<open>Uncaught m\<close>: an exception leaves an event callback; the promise never settles.
\<close>

datatype error = Error string | Uncaught string

record VoiceInfo =
  id :: string
  name :: string
  language :: string
  gender :: "string option"
  quality :: "string option"

text \<open>The promise around a spawned process, as \<open>speak\<close> of the native providers builds it.\<close>

definition awaitExit :: "string \<Rightarrow> bool \<Rightarrow> proc_result \<Rightarrow> error + unit" where
  "awaitExit what withStderr r =
     (case r of
        SpawnError e \<Rightarrow> Inl (Error e)
      | Exited code out err \<Rightarrow>
          if code = 0 then Inr ()
          else Inl (Error (what @ '' exited with code '' @ showInt code
                           @ (if withStderr then '': '' @ err else []))))"

text \<open>The presence check shared by the detections: exit code 0 resolves, all else is caught.\<close>

definition exitedZero :: "proc_result \<Rightarrow> bool" where
  "exitedZero r = (case r of SpawnError e \<Rightarrow> False | Exited code out err \<Rightarrow> code = 0)"

section \<open>The providers\<close>

datatype kind = MacOS | Windows | Android | ElevenLabs

text \<open>The \<open>name\<close> field of each provider class.\<close>

fun kindName :: "kind \<Rightarrow> string" where
  "kindName MacOS = ''macOS''"
| "kindName Windows = ''Windows''"
| "kindName Android = ''Android''"
| "kindName ElevenLabs = ''ElevenLabs''"

text \<open>
  A provider object: its class, its \<open>available\<close> field (\<open>false\<close> at construction) and
  the key the cloud provider is constructed with (\<open>None\<close> in the native ones).
\<close>

record provider =
  pkind :: kind
  available :: bool
  apiKey :: "string option"

definition newProvider :: "kind \<Rightarrow> string option \<Rightarrow> provider" where
  "newProvider k key = \<lparr>pkind = k, available = False, apiKey = key\<rparr>"

definition providerName :: "provider \<Rightarrow> string" where
  "providerName p = kindName (pkind p)"

subsection \<open>macOS (\<open>say\<close>)\<close>

definition macos_isAvailable :: "world \<Rightarrow> bool" where
  "macos_isAvailable w =
     (if platform w \<noteq> ''darwin'' then False
      else exitedZero (spawn w ''which'' [Lit ''say'']))"

definition macos_speak ::
  "world \<Rightarrow> bool \<Rightarrow> string \<Rightarrow> VoiceOptions option \<Rightarrow> effect list \<times> (error + unit)" where
  "macos_speak w avail text options =
     (if \<not> avail then ([], Inl (Error ''macOS voice provider not available''))
      else
        (let sanitized = sanitizeText text;
             args0 = [];
             args1 = (case optVoice options of
                        None \<Rightarrow> args0
                      | Some v \<Rightarrow> if v \<noteq> [] then args0 @ [Lit ''-v'', Lit v] else args0);
             args2 = (case optRate options of
                        None \<Rightarrow> args1
                      | Some r \<Rightarrow> if r \<noteq> 0 then args1 @ [Lit ''-r'', NumToString r] else args1);
             args = args2 @ [Lit sanitized]
         in ([Spawn ''say'' args], awaitExit ''say command'' False (spawn w ''say'' args))))"

definition macos_voice :: "string \<Rightarrow> string \<Rightarrow> string \<Rightarrow> string \<Rightarrow> string \<Rightarrow> VoiceInfo" where
  "macos_voice i n l g q = \<lparr>id = i, name = n, language = l, gender = Some g, quality = Some q\<rparr>"

definition macos_getVoices :: "bool \<Rightarrow> effect list \<times> (error + VoiceInfo list)" where
  "macos_getVoices avail =
     (if \<not> avail then ([], Inr [])
      else ([], Inr
        [macos_voice ''Jamie'' ''Jamie (Premium)'' ''en-GB'' ''male'' ''premium'',
         macos_voice ''Ava'' ''Ava (Premium)'' ''en-US'' ''female'' ''premium'',
         macos_voice ''Tom'' ''Tom (Enhanced)'' ''en-US'' ''male'' ''enhanced'',
         macos_voice ''Serena'' ''Serena (Premium)'' ''en-GB'' ''female'' ''premium'',
         macos_voice ''Isha'' ''Isha (Premium)'' ''en-IN'' ''female'' ''premium'',
         macos_voice ''Oliver'' ''Oliver (Enhanced)'' ''en-GB'' ''male'' ''enhanced'',
         macos_voice ''Samantha'' ''Samantha (Enhanced)'' ''en-US'' ''female'' ''enhanced'']))"

subsection \<open>Windows (PowerShell and SAPI)\<close>

definition windows_isAvailable :: "world \<Rightarrow> bool" where
  "windows_isAvailable w =
     (if platform w \<noteq> ''win32'' then False
      else exitedZero (spawn w ''powershell'' [Lit ''-Command'', Lit ''Get-Command Add-Type'']))"

definition normalizeRate :: "real \<Rightarrow> int" where
  "normalizeRate wpm =
     (let normalized = (wpm - 180) / 20
      in max (- 10) (min 10 (Math_round normalized)))"

definition nl :: string where
  "nl = [CHR 0x0A]"

definition dq :: string where
  "dq = [CHR 0x22]"

definition ind :: string where
  "ind = ''      ''"

definition windows_script :: "string \<Rightarrow> VoiceOptions option \<Rightarrow> string" where
  "windows_script escapedText options =
     nl @ ind @ ''Add-Type -AssemblyName System.Speech''
     @ nl @ ind @ ''$synth = New-Object System.Speech.Synthesis.SpeechSynthesizer''
     @ nl @ ind
     @ (case optVoice options of
          None \<Rightarrow> []
        | Some v \<Rightarrow> if v \<noteq> [] then ''$synth.SelectVoice('' @ dq @ v @ dq @ '')'' else [])
     @ nl @ ind
     @ (case optRate options of
          None \<Rightarrow> []
        | Some r \<Rightarrow> if r \<noteq> 0 then ''$synth.Rate = '' @ showInt (normalizeRate r) else [])
     @ nl @ ind @ ''$synth.Speak('' @ dq @ escapedText @ dq @ '')''
     @ nl @ ind @ ''$synth.Dispose()''
     @ nl @ ''    ''"

definition windows_speak ::
  "world \<Rightarrow> bool \<Rightarrow> string \<Rightarrow> VoiceOptions option \<Rightarrow> effect list \<times> (error + unit)" where
  "windows_speak w avail text options =
     (if \<not> avail then ([], Inl (Error ''Windows voice provider not available''))
      else
        (let sanitized = sanitizeText text;
             escapedText = replaceAll reQuote sanitized;
             script = windows_script escapedText options;
             args = [Lit ''-Command'', Lit script]
         in ([Spawn ''powershell'' args],
             awaitExit ''PowerShell'' True (spawn w ''powershell'' args))))"

definition windows_listScript :: string where
  "windows_listScript =
     nl @ ind @ ''Add-Type -AssemblyName System.Speech''
     @ nl @ ind @ ''$synth = New-Object System.Speech.Synthesis.SpeechSynthesizer''
     @ nl @ ind @ ''$synth.GetInstalledVoices() | ForEach-Object {''
     @ nl @ ind @ ''  $voice = $_.VoiceInfo''
     @ nl @ ind @ ''  Write-Output '' @ dq
        @ ''$($voice.Name)|$($voice.Culture.Name)|$($voice.Gender)'' @ dq
     @ nl @ ind @ ''}''
     @ nl @ ind @ ''$synth.Dispose()''
     @ nl @ ''    ''"

text \<open>
  One line of the listing: \<open>const [name, language, gender] = line.split('|')\<close>. The line
  holds a \<open>|\<close>, so there are two fields at least; with two only, \<open>gender\<close> is undefined
  and \<open>gender.toLowerCase()\<close> throws a TypeError inside the \<open>exit\<close> callback.
\<close>

definition windows_parseLine :: "string \<Rightarrow> VoiceInfo option" where
  "windows_parseLine line =
     (case splitOn (CHR ''|'') line of
        n # l # g # others \<Rightarrow>
          Some \<lparr>id = n, name = n, language = l, gender = Some (toLowerCase g),
                quality = Some ''standard''\<rparr>
      | _ \<Rightarrow> None)"

fun windows_parseLines :: "string list \<Rightarrow> VoiceInfo list option" where
  "windows_parseLines [] = Some []"
| "windows_parseLines (line # lines) =
     (case windows_parseLine line of
        None \<Rightarrow> None
      | Some v \<Rightarrow> (case windows_parseLines lines of None \<Rightarrow> None | Some vs \<Rightarrow> Some (v # vs)))"

definition windows_getVoices :: "world \<Rightarrow> bool \<Rightarrow> effect list \<times> (error + VoiceInfo list)" where
  "windows_getVoices w avail =
     (if \<not> avail then ([], Inr [])
      else
        (let args = [Lit ''-Command'', Lit windows_listScript]
         in ([Spawn ''powershell'' args],
             (case spawn w ''powershell'' args of
                SpawnError e \<Rightarrow> Inl (Error e)
              | Exited code out err \<Rightarrow>
                  if code \<noteq> 0
                  then Inl (Error (''PowerShell exited with code '' @ showInt code @ '': '' @ err))
                  else
                    (case windows_parseLines
                            (filter (\<lambda>line. CHR ''|'' \<in> set line) (splitOn (CHR 0x0A) (trim out))) of
                       None \<Rightarrow> Inl (Uncaught ''TypeError'')
                     | Some voices \<Rightarrow> Inr voices)))))"

subsection \<open>Android (Termux)\<close>

definition android_isAvailable :: "world \<Rightarrow> bool" where
  "android_isAvailable w = exitedZero (spawn w ''which'' [Lit ''termux-tts-speak''])"

definition android_speak ::
  "world \<Rightarrow> bool \<Rightarrow> string \<Rightarrow> VoiceOptions option \<Rightarrow> effect list \<times> (error + unit)" where
  "android_speak w avail text options =
     (if \<not> avail then ([], Inl (Error ''Android voice provider not available''))
      else
        (let sanitized = sanitizeText text;
             args0 = [];
             args1 = (case optRate options of
                        None \<Rightarrow> args0
                      | Some r0 \<Rightarrow>
                          if r0 \<noteq> 0
                          then (let r = r0 / 175
                                in args0 @ [Lit ''-r'', NumToFixed2 (max (1 / 10) (min 2 r))])
                          else args0);
             args2 = (case optPitch options of
                        None \<Rightarrow> args1
                      | Some p \<Rightarrow>
                          if p \<noteq> 0
                          then args1 @ [Lit ''-p'', NumToFixed2 (max (1 / 10) (min 2 p))]
                          else args1);
             args = args2 @ [Lit sanitized]
         in ([Spawn ''termux-tts-speak'' args],
             awaitExit ''termux-tts-speak'' False (spawn w ''termux-tts-speak'' args))))"

definition android_getVoices :: "bool \<Rightarrow> effect list \<times> (error + VoiceInfo list)" where
  "android_getVoices avail =
     (if \<not> avail then ([], Inr [])
      else ([], Inr [\<lparr>id = ''default'', name = ''Android TTS'', language = ''en-US'',
                       gender = None, quality = Some ''standard''\<rparr>]))"

subsection \<open>ElevenLabs (cloud)\<close>

definition elevenlabs_isAvailable :: "string option \<Rightarrow> bool" where
  "elevenlabs_isAvailable key = truthyStr key"

definition defaultVoiceId :: string where
  "defaultVoiceId = ''s3TPKV1kjDlVtZbl4Ksh''"

definition audioPlayers :: "string list" where
  "audioPlayers = [''afplay'', ''mpg123'', ''ffplay'', ''powershell'']"

text \<open>
  The module imports no \<open>spawn\<close>, so the name is unbound. In \<open>detectAudioPlayer\<close> the
  call inside \<open>try\<close> throws a ReferenceError for each candidate, the \<open>catch\<close> goes on
  to the next one, no process is started and the result is \<open>null\<close>.
\<close>

fun detectAudioPlayer :: "string list \<Rightarrow> string option" where
  "detectAudioPlayer [] = None"
| "detectAudioPlayer (player # players) = detectAudioPlayer players"

text \<open>
  \<open>playAudio\<close> writes the temporary file, then looks for a player. With a player, the
  call of \<open>spawn\<close> in the promise would throw the same ReferenceError and reject it.
\<close>

definition playAudio :: "world \<Rightarrow> string \<Rightarrow> effect list \<times> (error + unit)" where
  "playAudio w audioBuffer =
     (let tempFile = ''/tmp/voice-'' @ showInt (now w) @ ''.mp3''
      in case writeFile w tempFile of
           Some e \<Rightarrow> ([Write tempFile audioBuffer], Inl (Error e))
         | None \<Rightarrow>
             (case detectAudioPlayer audioPlayers of
                None \<Rightarrow> ([Write tempFile audioBuffer], Inl (Error ''No audio player found''))
              | Some player \<Rightarrow>
                  ([Write tempFile audioBuffer], Inl (Error ''spawn is not defined''))))"

definition elevenlabs_request :: "string \<Rightarrow> string \<Rightarrow> string \<Rightarrow> http_request" where
  "elevenlabs_request key voiceId sanitized =
     \<lparr>url = ''https://api.elevenlabs.io/v1/text-to-speech/'' @ voiceId,
      httpMethod = ''POST'',
      headers = [(''Accept'', ''audio/mpeg''), (''Content-Type'', ''application/json''),
                 (''xi-api-key'', key)],
      body = Some (JObject
        [(''text'', JString sanitized),
         (''model_id'', JString ''eleven_monolingual_v1''),
         (''voice_settings'',
            JObject [(''stability'', JNumber (1 / 2)), (''similarity_boost'', JNumber (1 / 2))])])\<rparr>"

definition elevenlabs_speak ::
  "world \<Rightarrow> bool \<Rightarrow> string option \<Rightarrow> string \<Rightarrow> VoiceOptions option
     \<Rightarrow> effect list \<times> (error + unit)" where
  "elevenlabs_speak w avail key0 text options =
     (case key0 of
        None \<Rightarrow> ([], Inl (Error ''ElevenLabs API key not configured''))
      | Some key \<Rightarrow>
          if \<not> avail \<or> key = []
          then ([], Inl (Error ''ElevenLabs API key not configured''))
          else
            (let sanitized = sanitizeText text;
                 voiceId = (case optVoice options of
                              None \<Rightarrow> defaultVoiceId
                            | Some v \<Rightarrow> if v \<noteq> [] then v else defaultVoiceId);
                 req = elevenlabs_request key voiceId sanitized
             in case fetch w req of
                  FetchFailed e \<Rightarrow> ([Fetch req], Inl (Error e))
                | Response r \<Rightarrow>
                    if \<not> ok r
                    then ([Fetch req],
                          Inl (Error (''ElevenLabs API error: '' @ showInt (status r) @ '' - ''
                                      @ bodyText r)))
                    else (case playAudio w (bodyText r) of
                            (es, res) \<Rightarrow> (Fetch req # es, res))))"

definition elevenlabs_getVoices ::
  "world \<Rightarrow> bool \<Rightarrow> string option \<Rightarrow> effect list \<times> (error + VoiceInfo list)" where
  "elevenlabs_getVoices w avail key0 =
     (case key0 of
        None \<Rightarrow> ([], Inr [])
      | Some key \<Rightarrow>
          if \<not> avail \<or> key = [] then ([], Inr [])
          else
            (let req = \<lparr>url = ''https://api.elevenlabs.io/v1/voices'', httpMethod = ''GET'',
                        headers = [(''xi-api-key'', key)], body = None\<rparr>
             in ([Fetch req],
                 (case fetch w req of
                    FetchFailed e \<Rightarrow> Inr []
                  | Response r \<Rightarrow>
                      if \<not> ok r then Inr []
                      else (case bodyVoices r of
                              None \<Rightarrow> Inr []
                            | Some vs \<Rightarrow>
                                Inr (map (\<lambda>(i, n). \<lparr>id = i, name = n, language = ''en-US'',
                                                     gender = None, quality = Some ''premium''\<rparr>)
                                       vs))))))"

subsection \<open>The provider interface\<close>

fun provider_isAvailable :: "world \<Rightarrow> provider \<Rightarrow> bool" where
  "provider_isAvailable w p =
     (case pkind p of
        MacOS \<Rightarrow> macos_isAvailable w
      | Windows \<Rightarrow> windows_isAvailable w
      | Android \<Rightarrow> android_isAvailable w
      | ElevenLabs \<Rightarrow> elevenlabs_isAvailable (apiKey p))"

definition provider_initialize :: "world \<Rightarrow> provider \<Rightarrow> provider" where
  "provider_initialize w p = p\<lparr>available := provider_isAvailable w p\<rparr>"

definition provider_speak ::
  "world \<Rightarrow> provider \<Rightarrow> string \<Rightarrow> VoiceOptions option \<Rightarrow> effect list \<times> (error + unit)" where
  "provider_speak w p text options =
     (case pkind p of
        MacOS \<Rightarrow> macos_speak w (available p) text options
      | Windows \<Rightarrow> windows_speak w (available p) text options
      | Android \<Rightarrow> android_speak w (available p) text options
      | ElevenLabs \<Rightarrow> elevenlabs_speak w (available p) (apiKey p) text options)"

definition provider_getVoices ::
  "world \<Rightarrow> provider \<Rightarrow> effect list \<times> (error + VoiceInfo list)" where
  "provider_getVoices w p =
     (case pkind p of
        MacOS \<Rightarrow> macos_getVoices (available p)
      | Windows \<Rightarrow> windows_getVoices w (available p)
      | Android \<Rightarrow> android_getVoices (available p)
      | ElevenLabs \<Rightarrow> elevenlabs_getVoices w (available p) (apiKey p))"

section \<open>The manager (\<open>VoiceManager\<close>)\<close>

record manager =
  providers :: "provider list"
  activeProvider :: "provider option"
  initialized :: bool
  elevenLabsApiKey :: "string option"

definition newManager :: "string option \<Rightarrow> manager" where
  "newManager key =
     \<lparr>providers = [], activeProvider = None, initialized = False, elevenLabsApiKey = key\<rparr>"

text \<open>
  What awaiting \<open>provider.initialize()\<close> gives: the value it stores in the provider's
  \<open>available\<close> field, or an exception, which the manager catches. A \<open>detection\<close> fixes
  this outcome for each provider; \<open>detectWorld\<close> is the one the provider classes
  implement.
\<close>

datatype init_outcome = Initialized bool | InitThrew string

type_synonym detection = "provider \<Rightarrow> init_outcome"

definition detectWorld :: "world \<Rightarrow> detection" where
  "detectWorld w p = Initialized (available (provider_initialize w p))"

text \<open>The loop \<open>for (const provider of providers)\<close>; \<open>acc\<close> is \<open>this.providers\<close>.\<close>

fun initEach :: "detection \<Rightarrow> provider list \<Rightarrow> provider list \<Rightarrow> provider list" where
  "initEach detect [] acc = acc"
| "initEach detect (p # ps) acc =
     (case detect p of
        InitThrew e \<Rightarrow> initEach detect ps acc
      | Initialized a \<Rightarrow>
          (let p' = p\<lparr>available := a\<rparr>
           in if available p' then initEach detect ps (acc @ [p'])
              else initEach detect ps acc))"

text \<open>The providers \<open>initialize\<close> constructs, in this order.\<close>

definition createProviders :: "string option \<Rightarrow> provider list" where
  "createProviders key =
     [newProvider MacOS None, newProvider Windows None, newProvider Android None,
      newProvider ElevenLabs key]"

definition initialize :: "detection \<Rightarrow> manager \<Rightarrow> manager" where
  "initialize detect m =
     (if initialized m then m
      else
        (let created = createProviders (elevenLabsApiKey m);
             ps = initEach detect created (providers m);
             active = (case find (\<lambda>p. providerName p \<noteq> ''ElevenLabs'') ps of
                         Some p \<Rightarrow> Some p
                       | None \<Rightarrow> (case ps of [] \<Rightarrow> None | p # rest \<Rightarrow> Some p))
         in m\<lparr>providers := ps, activeProvider := active, initialized := True\<rparr>))"

definition speak ::
  "detection \<Rightarrow> world \<Rightarrow> manager \<Rightarrow> string \<Rightarrow> VoiceOptions option
     \<Rightarrow> manager \<times> effect list \<times> (error + unit)" where
  "speak detect w m text options =
     (let m1 = (if \<not> initialized m then initialize detect m else m)
      in case activeProvider m1 of
           None \<Rightarrow> (m1, [], Inl (Error ''No voice provider available''))
         | Some p \<Rightarrow> (m1, provider_speak w p text options))"

definition getVoices ::
  "detection \<Rightarrow> world \<Rightarrow> manager \<Rightarrow> manager \<times> effect list \<times> (error + VoiceInfo list)" where
  "getVoices detect w m =
     (let m1 = (if \<not> initialized m then initialize detect m else m)
      in case activeProvider m1 of
           None \<Rightarrow> (m1, [], Inr [])
         | Some p \<Rightarrow> (m1, provider_getVoices w p))"

definition getProviders :: "manager \<Rightarrow> provider list" where
  "getProviders m = providers m"

definition getActiveProvider :: "manager \<Rightarrow> string option" where
  "getActiveProvider m =
     (case activeProvider m of
        None \<Rightarrow> None
      | Some p \<Rightarrow> if providerName p = [] then None else Some (providerName p))"

definition setProvider :: "manager \<Rightarrow> string \<Rightarrow> manager \<times> (error + unit)" where
  "setProvider m wanted =
     (case find (\<lambda>p. toLowerCase (providerName p) = toLowerCase wanted) (providers m) of
        None \<Rightarrow> (m, Inl (Error (''Provider '' @ dq @ wanted @ dq @ '' not available'')))
      | Some p \<Rightarrow> (m\<lparr>activeProvider := Some p\<rparr>, Inr ()))"

definition isAvailable :: "manager \<Rightarrow> bool" where
  "isAvailable m = (activeProvider m \<noteq> None)"

section \<open>Definitions used by the statements\<close>

text \<open>
  The rate formula in the words of the specification: \<open>clamp(round(x), lo, hi)\<close>, with
  \<^const>\<open>round\<close> the nearest integer.
\<close>

definition spec_clamp :: "int \<Rightarrow> int \<Rightarrow> int \<Rightarrow> int" where
  "spec_clamp x lo hi = (if x < lo then lo else if hi < x then hi else x)"

definition spec_normalizeRate :: "real \<Rightarrow> int" where
  "spec_normalizeRate wpm = spec_clamp (round ((wpm - 180) / 20)) (- 10) 10"

text \<open>
  Provider \<open>k\<close> of a manager built with \<open>key\<close> reports available: its initialization
  returns and leaves \<open>available\<close> true.
\<close>

definition reported :: "detection \<Rightarrow> string option \<Rightarrow> kind \<Rightarrow> bool" where
  "reported detect key k =
     (detect (newProvider k (if k = ElevenLabs then key else None)) = Initialized True)"

text \<open>A detection given by a table of availability results.\<close>

definition detectTable :: "(kind \<Rightarrow> bool) \<Rightarrow> detection" where
  "detectTable t p = Initialized (t (pkind p))"

text \<open>Concrete surroundings for the examples: nothing is installed, the network is down.\<close>

definition quietWorld :: world where
  "quietWorld =
     \<lparr>platform = ''linux'', spawn = (\<lambda>cmd args. Exited 1 [] ''boom''),
      fetch = (\<lambda>req. FetchFailed ''offline''), writeFile = (\<lambda>path. None), now = 0\<rparr>"

definition windowsOnly :: "kind \<Rightarrow> bool" where
  "windowsOnly k = (k = Windows)"

text \<open>The characters the sanitizer's patterns begin with or delete.\<close>

definition markup :: "char \<Rightarrow> bool" where
  "markup c =
     (c = CHR ''<'' \<or> c = CHR ''>'' \<or> c = CHR ''*'' \<or> c = CHR 0x60 \<or> c = CHR ''#''
      \<or> c = CHR ''['')"

text \<open>
  The characters the first four passes delete, the text they leave for the heading
  pass, and whether that text ends with a \<open>#\<close>.
\<close>

definition deleted :: "char \<Rightarrow> bool" where
  "deleted c = (c = CHR ''<'' \<or> c = CHR ''>'' \<or> c = CHR ''*'' \<or> c = CHR 0x60)"

definition kept :: "string \<Rightarrow> string" where
  "kept s = filter (\<lambda>c. \<not> deleted c) s"

definition endsWithHash :: "string \<Rightarrow> bool" where
  "endsWithHash u = (kept u \<noteq> [] \<and> last (kept u) = CHR ''#'')"

definition macProvider :: provider where
  "macProvider = \<lparr>pkind = MacOS, available = True, apiKey = None\<rparr>"

definition termuxProvider :: provider where
  "termuxProvider = \<lparr>pkind = Android, available = True, apiKey = None\<rparr>"

definition cloudProvider :: provider where
  "cloudProvider = \<lparr>pkind = ElevenLabs, available = True, apiKey = Some ''key''\<rparr>"

definition loudOptions :: VoiceOptions where
  "loudOptions = \<lparr>voice = None, rate = Some 100000, pitch = Some 9, volume = Some 3\<rparr>"

definition plainOptions :: VoiceOptions where
  "plainOptions = \<lparr>voice = None, rate = None, pitch = None, volume = None\<rparr>"



text \<open>The voice the cloud request names: \<open>options?.voice || this.defaultVoiceId\<close>.\<close>

definition chosenVoice :: "VoiceOptions option \<Rightarrow> string" where
  "chosenVoice options =
     (case optVoice options of None \<Rightarrow> defaultVoiceId
      | Some v \<Rightarrow> if v \<noteq> [] then v else defaultVoiceId)"

text \<open>The call that lists the installed voices of the Windows provider.\<close>

definition listVoicesCall :: "world \<Rightarrow> proc_result" where
  "listVoicesCall w = spawn w ''powershell'' [Lit ''-Command'', Lit windows_listScript]"

text \<open>The request of the cloud provider's voice listing.\<close>

definition voicesRequest :: "string \<Rightarrow> http_request" where
  "voicesRequest key =
     \<lparr>url = ''https://api.elevenlabs.io/v1/voices'', httpMethod = ''GET'',
      headers = [(''xi-api-key'', key)], body = None\<rparr>"

definition windowsProvider :: provider where
  "windowsProvider = \<lparr>pkind = Windows, available = True, apiKey = None\<rparr>"

definition androidProvider :: provider where
  "androidProvider = \<lparr>pkind = Android, available = False, apiKey = None\<rparr>"

section \<open>The manager\<close>

lemma initEach_filter:
  "initEach detect ps acc =
     acc @ map (\<lambda>p. p\<lparr>available := True\<rparr>) (filter (\<lambda>p. detect p = Initialized True) ps)"
  by (induction ps arbitrary: acc) (auto split: init_outcome.splits)

lemma providers_initialize:
  "providers (initialize detect (newManager key)) =
     map (\<lambda>p. p\<lparr>available := True\<rparr>)
       (filter (\<lambda>p. detect p = Initialized True) (createProviders key))"
  by (simp add: initialize_def newManager_def initEach_filter Let_def)

lemma active_initialize_none:
  assumes "\<forall>k. \<not> reported detect key k"
  shows "activeProvider (initialize detect (newManager key)) = None"
proof -
  have "\<not> reported detect key MacOS" "\<not> reported detect key Windows"
    "\<not> reported detect key Android" "\<not> reported detect key ElevenLabs"
    using assms by blast+
  then show ?thesis
    by (simp add: initialize_def newManager_def initEach_filter createProviders_def
          reported_def Let_def)
qed

text \<open>
  C1. On a new manager, \<open>initialize\<close> makes active the first of macOS, Windows and
  Android that reports available; when none of them does, ElevenLabs if it reports
  available; otherwise nobody. The choice is this function of the four reports, whatever
  else the detection does.
\<close>

theorem initialize_selects_by_construction_order:
  "map_option pkind (activeProvider (initialize detect (newManager key))) =
     (if reported detect key MacOS then Some MacOS
      else if reported detect key Windows then Some Windows
      else if reported detect key Android then Some Android
      else if reported detect key ElevenLabs then Some ElevenLabs
      else None)"
  by (simp add: initialize_def newManager_def initEach_filter createProviders_def
        reported_def providerName_def newProvider_def Let_def)

text \<open>
  C3. When none of the four providers reports available, \<open>speak\<close> on a new manager
  throws \<open>No voice provider available\<close> and \<open>getVoices\<close> returns the empty list; both
  dispatch nothing. The same holds on an initialized manager without an active provider.
\<close>

theorem no_provider_speak_throws_getVoices_empty:
  "((\<forall>k. \<not> reported detect key k) \<longrightarrow>
      speak detect w (newManager key) text options =
        (initialize detect (newManager key), [], Inl (Error ''No voice provider available''))
      \<and> getVoices detect w (newManager key) = (initialize detect (newManager key), [], Inr []))
   \<and> (initialized m \<and> activeProvider m = None \<longrightarrow>
      speak detect w m text options = (m, [], Inl (Error ''No voice provider available''))
      \<and> getVoices detect w m = (m, [], Inr []))"
proof (intro conjI impI)
  assume none: "\<forall>k. \<not> reported detect key k"
  have act: "activeProvider (initialize detect (newManager key)) = None"
    using none by (rule active_initialize_none)
  show "speak detect w (newManager key) text options =
          (initialize detect (newManager key), [], Inl (Error ''No voice provider available''))"
    using act by (simp add: speak_def newManager_def)
  show "getVoices detect w (newManager key) = (initialize detect (newManager key), [], Inr [])"
    using act by (simp add: getVoices_def newManager_def)
next
  assume "initialized m \<and> activeProvider m = None"
  then show "speak detect w m text options =
               (m, [], Inl (Error ''No voice provider available''))"
    by (simp add: speak_def)
next
  assume "initialized m \<and> activeProvider m = None"
  then show "getVoices detect w m = (m, [], Inr [])"
    by (simp add: getVoices_def)
qed

theorem no_provider_witness:
  "(\<forall>k. \<not> reported (detectTable (\<lambda>k. False)) None k)
   \<and> snd (speak (detectTable (\<lambda>k. False)) quietWorld (newManager None) ''hello'' None) =
       ([], Inl (Error ''No voice provider available''))
   \<and> snd (getVoices (detectTable (\<lambda>k. False)) quietWorld (newManager None)) = ([], Inr [])"
proof -
  have h: "\<forall>k. \<not> reported (detectTable (\<lambda>k. False)) None k"
    by (simp add: reported_def detectTable_def)
  show ?thesis
    using h
      no_provider_speak_throws_getVoices_empty
        [of "detectTable (\<lambda>k. False)" None quietWorld "''hello''" None "newManager None"]
    by simp
qed

text \<open>
  C5, as the code has it. After \<open>initialize\<close> on a new manager, \<open>getProviders\<close> returns
  the providers that reported available, in construction order, each with its name and
  \<open>available\<close> true; a provider that did not report available is not in the list.
\<close>

theorem getProviders_lists_available_only:
  "getProviders (initialize detect (newManager key)) =
     map (\<lambda>p. p\<lparr>available := True\<rparr>)
       (filter (\<lambda>p. detect p = Initialized True) (createProviders key))
   \<and> (\<forall>p \<in> set (getProviders (initialize detect (newManager key))). available p)"
  by (simp add: getProviders_def providers_initialize)

theorem getProviders_witness:
  "getProviders (initialize (detectTable windowsOnly) (newManager None)) =
     [\<lparr>pkind = Windows, available = True, apiKey = None\<rparr>]
   \<and> available (hd (getProviders (initialize (detectTable windowsOnly) (newManager None))))"
  using getProviders_lists_available_only [of "detectTable windowsOnly" None]
  by (simp add: createProviders_def newProvider_def detectTable_def windowsOnly_def)

text \<open>
  The claim as stated fails: with Windows alone available, the list holds one provider,
  not the four that were constructed.
\<close>

theorem getProviders_counterexample:
  "map pkind (getProviders (initialize (detectTable windowsOnly) (newManager None))) = [Windows]
   \<and> map pkind (createProviders None) = [MacOS, Windows, Android, ElevenLabs]"
  by (simp add: getProviders_def providers_initialize createProviders_def newProvider_def
        detectTable_def windowsOnly_def)

section \<open>Rate normalization of the Windows provider\<close>

text \<open>
  C2, as the code has it. \<open>normalizeRate\<close> computes \<open>clamp(round((wpm-180)/20), -10, 10)\<close>:
  180 gives 0, 200 gives 1, 400 gives 10 (clamped), and 80 gives -5, which is in range
  and not clamped.
\<close>

theorem normalizeRate_is_clamped_round:
  "normalizeRate wpm = spec_normalizeRate wpm
   \<and> normalizeRate 180 = 0 \<and> normalizeRate 200 = 1
   \<and> normalizeRate 80 = - 5 \<and> normalizeRate 400 = 10"
  by (simp add: normalizeRate_def Math_round_def round_def spec_normalizeRate_def spec_clamp_def)

text \<open>The claim as stated fails at 80, which does not give -10.\<close>

theorem normalizeRate_80_counterexample:
  "normalizeRate 80 \<noteq> - 10"
  by (simp add: normalizeRate_def Math_round_def)

section \<open>The providers\<close>

lemma sanitize_hi: "sanitizeText ''hi'' = ''hi''"
  by code_simp

lemma sanitize_starred_hi: "sanitizeText ''*hi*'' = ''hi''"
  by code_simp

lemma showInt_1: "showInt 1 = ''1''"
  by code_simp

lemma macos_flags:
  "\<exists>flags. \<forall>text. fst (macos_speak w True text options) =
      [Spawn ''say'' (flags @ [Lit (sanitizeText text)])]"
proof -
  define flags where
    "flags = (case optVoice options of None \<Rightarrow> []
              | Some v \<Rightarrow> if v \<noteq> [] then [Lit ''-v'', Lit v] else [])
             @ (case optRate options of None \<Rightarrow> []
                | Some r \<Rightarrow> if r \<noteq> 0 then [Lit ''-r'', NumToString r] else [])"
  have "fst (macos_speak w True t options) =
          [Spawn ''say'' (flags @ [Lit (sanitizeText t)])]" for t
    by (simp add: macos_speak_def flags_def Let_def split: option.splits)
  then show ?thesis by blast
qed

lemma android_flags:
  "\<exists>flags. \<forall>text. fst (android_speak w True text options) =
      [Spawn ''termux-tts-speak'' (flags @ [Lit (sanitizeText text)])]"
proof -
  define flags where
    "flags = (case optRate options of None \<Rightarrow> []
              | Some r \<Rightarrow>
                  if r \<noteq> 0 then [Lit ''-r'', NumToFixed2 (max (1 / 10) (min 2 (r / 175)))]
                  else [])
             @ (case optPitch options of None \<Rightarrow> []
                | Some q \<Rightarrow>
                    if q \<noteq> 0 then [Lit ''-p'', NumToFixed2 (max (1 / 10) (min 2 q))] else [])"
  have "fst (android_speak w True t options) =
          [Spawn ''termux-tts-speak'' (flags @ [Lit (sanitizeText t)])]" for t
    by (simp add: android_speak_def flags_def Let_def split: option.splits)
  then show ?thesis by blast
qed

lemma windows_script_text:
  "\<exists>pre post. \<forall>text. fst (windows_speak w True text options) =
      [Spawn ''powershell''
         [Lit ''-Command'',
          Lit (pre @ ''$synth.Speak('' @ dq @ replaceAll reQuote (sanitizeText text) @ dq @ '')''
               @ post)]]"
proof -
  define pre where
    "pre = nl @ ind @ ''Add-Type -AssemblyName System.Speech''
           @ nl @ ind @ ''$synth = New-Object System.Speech.Synthesis.SpeechSynthesizer''
           @ nl @ ind
           @ (case optVoice options of
                None \<Rightarrow> []
              | Some v \<Rightarrow> if v \<noteq> [] then ''$synth.SelectVoice('' @ dq @ v @ dq @ '')'' else [])
           @ nl @ ind
           @ (case optRate options of
                None \<Rightarrow> []
              | Some r \<Rightarrow> if r \<noteq> 0 then ''$synth.Rate = '' @ showInt (normalizeRate r) else [])
           @ nl @ ind"
  define post where "post = nl @ ind @ ''$synth.Dispose()'' @ nl @ ''    ''"
  have "fst (windows_speak w True t options) =
      [Spawn ''powershell''
         [Lit ''-Command'',
          Lit (pre @ ''$synth.Speak('' @ dq @ replaceAll reQuote (sanitizeText t) @ dq @ '')''
               @ post)]]" for t
    by (simp add: windows_speak_def windows_script_def pre_def post_def Let_def)
  then show ?thesis by blast
qed

lemma playAudio_writes:
  "\<forall>e \<in> set (fst (playAudio w audio)). \<exists>path content. e = Write path content"
  by (auto simp: playAudio_def Let_def split: option.splits)

lemma elevenlabs_trace:
  assumes "k \<noteq> []"
  shows "\<exists>rest. fst (elevenlabs_speak w True (Some k) text options) =
            Fetch (elevenlabs_request k (chosenVoice options) (sanitizeText text)) # rest
          \<and> (\<forall>e \<in> set rest. \<exists>path content. e = Write path content)"
proof -
  let ?req = "elevenlabs_request k (chosenVoice options) (sanitizeText text)"
  have unfold: "elevenlabs_speak w True (Some k) text options =
      (case fetch w ?req of
         FetchFailed e \<Rightarrow> ([Fetch ?req], Inl (Error e))
       | Response r \<Rightarrow>
           if \<not> ok r
           then ([Fetch ?req],
                 Inl (Error (''ElevenLabs API error: '' @ showInt (status r) @ '' - ''
                             @ bodyText r)))
           else (case playAudio w (bodyText r) of (es, res) \<Rightarrow> (Fetch ?req # es, res)))"
    unfolding elevenlabs_speak_def chosenVoice_def Let_def using assms by simp
  show ?thesis
  proof (cases "fetch w ?req")
    case (FetchFailed e)
    then show ?thesis by (simp add: unfold)
  next
    case (Response r)
    show ?thesis
    proof (cases "ok r")
      case False
      with Response show ?thesis by (simp add: unfold)
    next
      case True
      obtain es res where p: "playAudio w (bodyText r) = (es, res)"
        by (cases "playAudio w (bodyText r)")
      have "\<forall>e \<in> set es. \<exists>path content. e = Write path content"
        using playAudio_writes [of w "bodyText r"] p by simp
      with Response True p show ?thesis by (simp add: unfold)
    qed
  qed
qed

lemma elevenlabs_body_text:
  assumes "k \<noteq> []"
  shows "\<exists>u hs. \<forall>text. \<exists>rest.
           fst (elevenlabs_speak w True (Some k) text options) =
             Fetch \<lparr>url = u, httpMethod = ''POST'', headers = hs,
                    body = Some (JObject
                      [(''text'', JString (sanitizeText text)),
                       (''model_id'', JString ''eleven_monolingual_v1''),
                       (''voice_settings'',
                          JObject [(''stability'', JNumber (1 / 2)),
                                   (''similarity_boost'', JNumber (1 / 2))])])\<rparr> # rest
           \<and> (\<forall>e \<in> set rest. \<exists>path content. e = Write path content)"
proof (rule exI [of _ "''https://api.elevenlabs.io/v1/text-to-speech/'' @ chosenVoice options"],
       rule exI [of _ "[(''Accept'', ''audio/mpeg''), (''Content-Type'', ''application/json''),
                        (''xi-api-key'', k)]"],
       rule allI)
  fix t
  show "\<exists>rest.
           fst (elevenlabs_speak w True (Some k) t options) =
             Fetch \<lparr>url = ''https://api.elevenlabs.io/v1/text-to-speech/'' @ chosenVoice options,
                    httpMethod = ''POST'',
                    headers = [(''Accept'', ''audio/mpeg''), (''Content-Type'', ''application/json''),
                               (''xi-api-key'', k)],
                    body = Some (JObject
                      [(''text'', JString (sanitizeText t)),
                       (''model_id'', JString ''eleven_monolingual_v1''),
                       (''voice_settings'',
                          JObject [(''stability'', JNumber (1 / 2)),
                                   (''similarity_boost'', JNumber (1 / 2))])])\<rparr> # rest
           \<and> (\<forall>e \<in> set rest. \<exists>path content. e = Write path content)"
    using elevenlabs_trace [OF assms, of w t options]
    by (simp only: elevenlabs_request_def)
qed

lemma class_speak_sanitized_only:
  assumes "sanitizeText t1 = sanitizeText t2"
  shows "macos_speak w a t1 options = macos_speak w a t2 options"
    and "windows_speak w a t1 options = windows_speak w a t2 options"
    and "android_speak w a t1 options = android_speak w a t2 options"
  using assms by (simp_all add: macos_speak_def windows_speak_def android_speak_def)

lemma elevenlabs_dispatch:
  "k \<noteq> [] \<Longrightarrow>
   \<exists>rest. fst (elevenlabs_speak w True (Some k) text options) =
     Fetch (elevenlabs_request k (chosenVoice options) (sanitizeText text)) # rest"
  by (simp add: elevenlabs_speak_def chosenVoice_def Let_def
      split: fetch_result.splits prod.splits)

lemma elevenlabs_sanitized_only:
  "sanitizeText t1 = sanitizeText t2 \<Longrightarrow>
   elevenlabs_speak w avail key t1 options = elevenlabs_speak w avail key t2 options"
  unfolding elevenlabs_speak_def by (cases key) simp_all

lemma speak_sanitized_only:
  "sanitizeText t1 = sanitizeText t2 \<Longrightarrow>
   provider_speak w p t1 options = provider_speak w p t2 options"
proof (cases "pkind p")
  case ElevenLabs
  assume "sanitizeText t1 = sanitizeText t2"
  then have "elevenlabs_speak w (available p) (apiKey p) t1 options =
             elevenlabs_speak w (available p) (apiKey p) t2 options"
    by (rule elevenlabs_sanitized_only)
  with ElevenLabs show ?thesis
    by (simp add: provider_speak_def)
qed (simp_all add: provider_speak_def macos_speak_def windows_speak_def android_speak_def)

lemma elevenlabs_voice_only:
  "optVoice o1 = optVoice o2 \<Longrightarrow>
   elevenlabs_speak w avail key text o1 = elevenlabs_speak w avail key text o2"
  unfolding elevenlabs_speak_def by (cases key) simp_all

text \<open>
  C4. Each provider's \<open>speak\<close> hands the backend the sanitized text and nothing else of
  the text: it is the last argument of \<open>say\<close> and of \<open>termux-tts-speak\<close>, after flags
  that do not depend on the text; it stands, quotes doubled, inside \<open>$synth.Speak("...")\<close>
  of the PowerShell script, whose other parts do not depend on the text; and it is the
  \<open>text\<close> field of the body of the one request the cloud provider sends. Two texts with
  the same sanitized form give the same dispatch and the same result in every provider.
\<close>

theorem speak_dispatches_sanitized_text:
  "(pkind p = MacOS \<and> available p \<longrightarrow>
      (\<exists>flags. \<forall>text. fst (provider_speak w p text options) =
         [Spawn ''say'' (flags @ [Lit (sanitizeText text)])]))
   \<and> (pkind p = Windows \<and> available p \<longrightarrow>
      (\<exists>pre post. \<forall>text. fst (provider_speak w p text options) =
         [Spawn ''powershell''
            [Lit ''-Command'',
             Lit (pre @ ''$synth.Speak('' @ dq @ replaceAll reQuote (sanitizeText text) @ dq
                  @ '')'' @ post)]]))
   \<and> (pkind p = Android \<and> available p \<longrightarrow>
      (\<exists>flags. \<forall>text. fst (provider_speak w p text options) =
         [Spawn ''termux-tts-speak'' (flags @ [Lit (sanitizeText text)])]))
   \<and> (pkind p = ElevenLabs \<and> available p \<and> apiKey p = Some k \<and> k \<noteq> [] \<longrightarrow>
      (\<exists>u hs. \<forall>text. \<exists>rest.
         fst (provider_speak w p text options) =
           Fetch \<lparr>url = u, httpMethod = ''POST'', headers = hs,
                  body = Some (JObject
                    [(''text'', JString (sanitizeText text)),
                     (''model_id'', JString ''eleven_monolingual_v1''),
                     (''voice_settings'',
                        JObject [(''stability'', JNumber (1 / 2)),
                                 (''similarity_boost'', JNumber (1 / 2))])])\<rparr> # rest
         \<and> (\<forall>e \<in> set rest. \<exists>path content. e = Write path content)))
   \<and> (sanitizeText t1 = sanitizeText t2 \<longrightarrow>
        macos_speak w a t1 options = macos_speak w a t2 options
        \<and> windows_speak w a t1 options = windows_speak w a t2 options
        \<and> android_speak w a t1 options = android_speak w a t2 options
        \<and> elevenlabs_speak w a key t1 options = elevenlabs_speak w a key t2 options
        \<and> provider_speak w p t1 options = provider_speak w p t2 options)"
proof (intro conjI impI)
  assume "pkind p = MacOS \<and> available p"
  then have "provider_speak w p t options = macos_speak w True t options" for t
    by (simp add: provider_speak_def)
  then show "\<exists>flags. \<forall>text. fst (provider_speak w p text options) =
               [Spawn ''say'' (flags @ [Lit (sanitizeText text)])]"
    using macos_flags [of w options] by simp
next
  assume "pkind p = Windows \<and> available p"
  then have "provider_speak w p t options = windows_speak w True t options" for t
    by (simp add: provider_speak_def)
  then show "\<exists>pre post. \<forall>text. fst (provider_speak w p text options) =
         [Spawn ''powershell''
            [Lit ''-Command'',
             Lit (pre @ ''$synth.Speak('' @ dq @ replaceAll reQuote (sanitizeText text) @ dq
                  @ '')'' @ post)]]"
    using windows_script_text [of w options] by simp
next
  assume "pkind p = Android \<and> available p"
  then have "provider_speak w p t options = android_speak w True t options" for t
    by (simp add: provider_speak_def)
  then show "\<exists>flags. \<forall>text. fst (provider_speak w p text options) =
               [Spawn ''termux-tts-speak'' (flags @ [Lit (sanitizeText text)])]"
    using android_flags [of w options] by simp
next
  assume h: "pkind p = ElevenLabs \<and> available p \<and> apiKey p = Some k \<and> k \<noteq> []"
  then have "provider_speak w p t options = elevenlabs_speak w True (Some k) t options" for t
    by (simp add: provider_speak_def)
  moreover have "k \<noteq> []" using h by simp
  ultimately show "\<exists>u hs. \<forall>text. \<exists>rest.
         fst (provider_speak w p text options) =
           Fetch \<lparr>url = u, httpMethod = ''POST'', headers = hs,
                  body = Some (JObject
                    [(''text'', JString (sanitizeText text)),
                     (''model_id'', JString ''eleven_monolingual_v1''),
                     (''voice_settings'',
                        JObject [(''stability'', JNumber (1 / 2)),
                                 (''similarity_boost'', JNumber (1 / 2))])])\<rparr> # rest
         \<and> (\<forall>e \<in> set rest. \<exists>path content. e = Write path content)"
    using elevenlabs_body_text [of k w options] by simp
next
  assume eq: "sanitizeText t1 = sanitizeText t2"
  show "macos_speak w a t1 options = macos_speak w a t2 options"
    using eq by (rule class_speak_sanitized_only)
  show "windows_speak w a t1 options = windows_speak w a t2 options"
    using eq by (rule class_speak_sanitized_only)
  show "android_speak w a t1 options = android_speak w a t2 options"
    using eq by (rule class_speak_sanitized_only)
  show "elevenlabs_speak w a key t1 options = elevenlabs_speak w a key t2 options"
    using eq by (rule elevenlabs_sanitized_only)
  show "provider_speak w p t1 options = provider_speak w p t2 options"
    using eq by (rule speak_sanitized_only)
qed

theorem speak_dispatches_sanitized_text_witness:
  "(\<exists>flags. \<forall>text. fst (provider_speak quietWorld macProvider text None) =
       [Spawn ''say'' (flags @ [Lit (sanitizeText text)])])
   \<and> (\<exists>pre post. \<forall>text. fst (provider_speak quietWorld windowsProvider text None) =
         [Spawn ''powershell''
            [Lit ''-Command'',
             Lit (pre @ ''$synth.Speak('' @ dq @ replaceAll reQuote (sanitizeText text) @ dq
                  @ '')'' @ post)]])
   \<and> (\<exists>flags. \<forall>text. fst (provider_speak quietWorld termuxProvider text None) =
         [Spawn ''termux-tts-speak'' (flags @ [Lit (sanitizeText text)])])
   \<and> (\<exists>u hs. \<forall>text. \<exists>rest.
         fst (provider_speak quietWorld cloudProvider text None) =
           Fetch \<lparr>url = u, httpMethod = ''POST'', headers = hs,
                  body = Some (JObject
                    [(''text'', JString (sanitizeText text)),
                     (''model_id'', JString ''eleven_monolingual_v1''),
                     (''voice_settings'',
                        JObject [(''stability'', JNumber (1 / 2)),
                                 (''similarity_boost'', JNumber (1 / 2))])])\<rparr> # rest
         \<and> (\<forall>e \<in> set rest. \<exists>path content. e = Write path content))
   \<and> sanitizeText ''*hi*'' = sanitizeText ''hi''
   \<and> provider_speak quietWorld macProvider ''*hi*'' None =
       provider_speak quietWorld macProvider ''hi'' None
   \<and> fst (provider_speak quietWorld macProvider ''*hi*'' None) = [Spawn ''say'' [Lit ''hi'']]"
proof -
  have m: "pkind macProvider = MacOS \<and> available macProvider"
    by (simp add: macProvider_def)
  have wi: "pkind windowsProvider = Windows \<and> available windowsProvider"
    by (simp add: windowsProvider_def)
  have t: "pkind termuxProvider = Android \<and> available termuxProvider"
    by (simp add: termuxProvider_def)
  have c: "pkind cloudProvider = ElevenLabs \<and> available cloudProvider
           \<and> apiKey cloudProvider = Some ''key'' \<and> ''key'' \<noteq> []"
    by (simp add: cloudProvider_def)
  have h: "sanitizeText ''*hi*'' = sanitizeText ''hi''"
    by (simp add: sanitize_hi sanitize_starred_hi)
  note mac = speak_dispatches_sanitized_text
    [where p = macProvider and w = quietWorld and options = None and ?t1.0 = "''*hi*''"
       and ?t2.0 = "''hi''"]
  note win = speak_dispatches_sanitized_text
    [where p = windowsProvider and w = quietWorld and options = None]
  note ter = speak_dispatches_sanitized_text
    [where p = termuxProvider and w = quietWorld and options = None]
  note clo = speak_dispatches_sanitized_text
    [where p = cloudProvider and w = quietWorld and options = None and k = "''key''"]
  have c1: "\<exists>flags. \<forall>text. fst (provider_speak quietWorld macProvider text None) =
       [Spawn ''say'' (flags @ [Lit (sanitizeText text)])]"
    using mac m by blast
  have c2: "\<exists>pre post. \<forall>text. fst (provider_speak quietWorld windowsProvider text None) =
         [Spawn ''powershell''
            [Lit ''-Command'',
             Lit (pre @ ''$synth.Speak('' @ dq @ replaceAll reQuote (sanitizeText text) @ dq
                  @ '')'' @ post)]]"
    using win wi by blast
  have c3: "\<exists>flags. \<forall>text. fst (provider_speak quietWorld termuxProvider text None) =
         [Spawn ''termux-tts-speak'' (flags @ [Lit (sanitizeText text)])]"
    using ter t by blast
  have c4: "\<exists>u hs. \<forall>text. \<exists>rest.
         fst (provider_speak quietWorld cloudProvider text None) =
           Fetch \<lparr>url = u, httpMethod = ''POST'', headers = hs,
                  body = Some (JObject
                    [(''text'', JString (sanitizeText text)),
                     (''model_id'', JString ''eleven_monolingual_v1''),
                     (''voice_settings'',
                        JObject [(''stability'', JNumber (1 / 2)),
                                 (''similarity_boost'', JNumber (1 / 2))])])\<rparr> # rest
         \<and> (\<forall>e \<in> set rest. \<exists>path content. e = Write path content)"
    using clo c by blast
  have c5: "provider_speak quietWorld macProvider ''*hi*'' None =
            provider_speak quietWorld macProvider ''hi'' None"
    using mac h by blast
  have c6: "fst (provider_speak quietWorld macProvider ''*hi*'' None) = [Spawn ''say'' [Lit ''hi'']]"
    by (simp add: provider_speak_def macProvider_def macos_speak_def optVoice_def optRate_def
          sanitize_starred_hi Let_def)
  show ?thesis
    using c1 c2 c3 c4 h c5 c6 by (intro conjI)
qed

text \<open>
  C10. The cloud provider's \<open>speak\<close> reads nothing of the options but the voice: options
  that agree on \<open>voice\<close> (or are both absent) give the same request and the same result.
  The request is built from the key, the chosen voice and the sanitized text.
\<close>

theorem elevenlabs_speak_ignores_rate_pitch_volume:
  "(voice v1 = voice v2 \<longrightarrow>
      elevenlabs_speak w avail key text (Some v1) = elevenlabs_speak w avail key text (Some v2))
   \<and> (optVoice o1 = optVoice o2 \<longrightarrow>
      elevenlabs_speak w avail key text o1 = elevenlabs_speak w avail key text o2)
   \<and> (k \<noteq> [] \<longrightarrow>
        (\<exists>rest. fst (elevenlabs_speak w True (Some k) text options) =
           Fetch (elevenlabs_request k (chosenVoice options) (sanitizeText text)) # rest))"
  using elevenlabs_voice_only [of "Some v1" "Some v2" w avail key "text"]
    elevenlabs_voice_only [of o1 o2 w avail key "text"]
    elevenlabs_dispatch [of k w "text" options]
  by (simp add: optVoice_def)

theorem elevenlabs_speak_ignores_witness:
  "voice loudOptions = voice plainOptions
   \<and> elevenlabs_speak quietWorld True (Some ''key'') ''hi'' (Some loudOptions) =
       elevenlabs_speak quietWorld True (Some ''key'') ''hi'' (Some plainOptions)
   \<and> optVoice (Some loudOptions) = optVoice None
   \<and> elevenlabs_speak quietWorld True (Some ''key'') ''hi'' (Some loudOptions) =
       elevenlabs_speak quietWorld True (Some ''key'') ''hi'' None
   \<and> ''key'' \<noteq> []
   \<and> (\<exists>rest. fst (elevenlabs_speak quietWorld True (Some ''key'') ''hi'' (Some loudOptions)) =
         Fetch (elevenlabs_request ''key'' defaultVoiceId ''hi'') # rest)"
proof -
  have h1: "voice loudOptions = voice plainOptions"
    by (simp add: loudOptions_def plainOptions_def)
  have h2: "optVoice (Some loudOptions) = optVoice None"
    by (simp add: optVoice_def loudOptions_def)
  have h3: "''key'' \<noteq> []"
    by simp
  have h4: "chosenVoice (Some loudOptions) = defaultVoiceId"
    by (simp add: chosenVoice_def optVoice_def loudOptions_def)
  note inst =
    elevenlabs_speak_ignores_rate_pitch_volume
      [of loudOptions plainOptions quietWorld True "Some ''key''" "''hi''"
          "Some loudOptions" None "''key''" "Some loudOptions"]
  have a: "elevenlabs_speak quietWorld True (Some ''key'') ''hi'' (Some loudOptions) =
           elevenlabs_speak quietWorld True (Some ''key'') ''hi'' (Some plainOptions)"
    using inst h1 by blast
  have b: "elevenlabs_speak quietWorld True (Some ''key'') ''hi'' (Some loudOptions) =
           elevenlabs_speak quietWorld True (Some ''key'') ''hi'' None"
    using inst h2 by blast
  have c: "\<exists>rest. fst (elevenlabs_speak quietWorld True (Some ''key'') ''hi'' (Some loudOptions)) =
             Fetch (elevenlabs_request ''key'' defaultVoiceId ''hi'') # rest"
    using inst h3 unfolding h4 sanitize_hi by blast
  show ?thesis
    using h1 h2 h3 a b c by blast
qed

section \<open>Listing voices\<close>

lemma elevenlabs_getVoices_unavailable:
  "elevenlabs_getVoices w False key = ([], Inr [])"
  by (cases key) (simp_all add: elevenlabs_getVoices_def)

lemma getVoices_unavailable:
  "\<not> available p \<Longrightarrow> provider_getVoices w p = ([], Inr [])"
  by (cases "pkind p")
     (simp_all add: provider_getVoices_def macos_getVoices_def windows_getVoices_def
        android_getVoices_def elevenlabs_getVoices_unavailable)

lemma elevenlabs_getVoices_returns:
  "\<exists>vs. snd (elevenlabs_getVoices w avail key) = Inr vs"
  by (cases key)
     (auto simp: elevenlabs_getVoices_def Let_def split: option.splits fetch_result.splits)

lemma getVoices_not_windows:
  assumes "pkind p \<noteq> Windows"
  shows "\<exists>vs. snd (provider_getVoices w p) = Inr vs"
proof (cases "pkind p")
  case ElevenLabs
  then show ?thesis
    using elevenlabs_getVoices_returns [of w "available p" "apiKey p"]
    by (simp add: provider_getVoices_def)
next
  case Windows
  with assms show ?thesis by simp
qed (simp_all add: provider_getVoices_def macos_getVoices_def android_getVoices_def)

lemma elevenlabs_getVoices_failure:
  assumes "k \<noteq> []"
    and "fetch w (voicesRequest k) = FetchFailed e
         \<or> (\<exists>r. fetch w (voicesRequest k) = Response r \<and> (\<not> ok r \<or> bodyVoices r = None))"
  shows "elevenlabs_getVoices w True (Some k) = ([Fetch (voicesRequest k)], Inr [])"
  using assms by (auto simp: elevenlabs_getVoices_def voicesRequest_def Let_def)

lemma windows_getVoices_rejects:
  "windows_getVoices w True =
     ([Spawn ''powershell'' [Lit ''-Command'', Lit windows_listScript]],
      (case listVoicesCall w of
         SpawnError e \<Rightarrow> Inl (Error e)
       | Exited code out err \<Rightarrow>
           if code \<noteq> 0
           then Inl (Error (''PowerShell exited with code '' @ showInt code @ '': '' @ err))
           else snd (windows_getVoices w True)))"
  by (simp add: windows_getVoices_def listVoicesCall_def Let_def split: proc_result.splits)

text \<open>
  C6, as the code has it. Every provider's \<open>getVoices\<close> returns the empty list when the
  provider is unavailable. The macOS, Android and ElevenLabs providers always return a
  list, and ElevenLabs returns the empty one when the request fails, is answered with an
  error status or has no readable body. The Windows provider rejects with an error when
  the listing process cannot be started or exits with a code other than 0.
\<close>

theorem getVoices_empty_or_windows_rejects:
  "(\<not> available p \<longrightarrow> provider_getVoices w p = ([], Inr []))
   \<and> (pkind p \<noteq> Windows \<longrightarrow> (\<exists>vs. snd (provider_getVoices w p) = Inr vs))
   \<and> (k \<noteq> [] \<and> (fetch w (voicesRequest k) = FetchFailed e
          \<or> (\<exists>r. fetch w (voicesRequest k) = Response r \<and> (\<not> ok r \<or> bodyVoices r = None)))
        \<longrightarrow> elevenlabs_getVoices w True (Some k) = ([Fetch (voicesRequest k)], Inr []))
   \<and> (listVoicesCall w = SpawnError e \<longrightarrow> snd (windows_getVoices w True) = Inl (Error e))
   \<and> (listVoicesCall w = Exited code out err \<and> code \<noteq> 0 \<longrightarrow>
        snd (windows_getVoices w True) =
          Inl (Error (''PowerShell exited with code '' @ showInt code @ '': '' @ err)))"
proof (intro conjI impI)
  assume "\<not> available p"
  then show "provider_getVoices w p = ([], Inr [])"
    by (rule getVoices_unavailable)
next
  assume "pkind p \<noteq> Windows"
  then show "\<exists>vs. snd (provider_getVoices w p) = Inr vs"
    by (rule getVoices_not_windows)
next
  assume "k \<noteq> [] \<and> (fetch w (voicesRequest k) = FetchFailed e
          \<or> (\<exists>r. fetch w (voicesRequest k) = Response r \<and> (\<not> ok r \<or> bodyVoices r = None)))"
  then show "elevenlabs_getVoices w True (Some k) = ([Fetch (voicesRequest k)], Inr [])"
    using elevenlabs_getVoices_failure [of k w e] by blast
next
  assume "listVoicesCall w = SpawnError e"
  then show "snd (windows_getVoices w True) = Inl (Error e)"
    by (subst windows_getVoices_rejects) simp
next
  assume "listVoicesCall w = Exited code out err \<and> code \<noteq> 0"
  then show "snd (windows_getVoices w True) =
          Inl (Error (''PowerShell exited with code '' @ showInt code @ '': '' @ err))"
    by (subst windows_getVoices_rejects) simp
qed

theorem getVoices_witness:
  "\<not> available androidProvider
   \<and> provider_getVoices quietWorld androidProvider = ([], Inr [])
   \<and> pkind androidProvider \<noteq> Windows
   \<and> (\<exists>vs. snd (provider_getVoices quietWorld androidProvider) = Inr vs)
   \<and> ''key'' \<noteq> []
   \<and> fetch quietWorld (voicesRequest ''key'') = FetchFailed ''offline''
   \<and> elevenlabs_getVoices quietWorld True (Some ''key'') = ([Fetch (voicesRequest ''key'')], Inr [])
   \<and> listVoicesCall quietWorld = Exited 1 [] ''boom''
   \<and> snd (windows_getVoices quietWorld True) = Inl (Error ''PowerShell exited with code 1: boom'')"
proof -
  have h1: "\<not> available androidProvider" "pkind androidProvider \<noteq> Windows"
    by (simp_all add: androidProvider_def)
  have h2: "''key'' \<noteq> []" "fetch quietWorld (voicesRequest ''key'') = FetchFailed ''offline''"
    by (simp_all add: quietWorld_def)
  have h3: "listVoicesCall quietWorld = Exited 1 [] ''boom''" "(1::int) \<noteq> 0"
    by (simp_all add: listVoicesCall_def quietWorld_def)
  note inst =
    getVoices_empty_or_windows_rejects
      [of androidProvider quietWorld "''key''" "''offline''" 1 "[]" "''boom''"]
  have a: "provider_getVoices quietWorld androidProvider = ([], Inr [])"
    using inst h1 by blast
  have b: "\<exists>vs. snd (provider_getVoices quietWorld androidProvider) = Inr vs"
    using inst h1 by blast
  have c: "elevenlabs_getVoices quietWorld True (Some ''key'') =
             ([Fetch (voicesRequest ''key'')], Inr [])"
    using inst h2 by blast
  have "snd (windows_getVoices quietWorld True) =
          Inl (Error (''PowerShell exited with code '' @ showInt 1 @ '': '' @ ''boom''))"
    using inst h3 by blast
  then have d: "snd (windows_getVoices quietWorld True) =
                  Inl (Error ''PowerShell exited with code 1: boom'')"
    by (simp add: showInt_1)
  show ?thesis
    using h1 h2 h3(1) a b c d by blast
qed

text \<open>
  The claim as stated fails for the Windows provider: when the listing process exits
  with code 1, \<open>getVoices\<close> rejects instead of returning the empty list.
\<close>

theorem windows_getVoices_counterexample:
  "snd (provider_getVoices quietWorld windowsProvider) =
     Inl (Error ''PowerShell exited with code 1: boom'')"
  by (simp add: provider_getVoices_def windowsProvider_def windows_getVoices_def
        quietWorld_def showInt_1 Let_def)

section \<open>Rate and pitch\<close>










section \<open>The sanitizer\<close>

subsection \<open>Global replacement\<close>


lemma replaceAll_Nil: "replaceAll m [] = []"
  by (subst replaceAll.simps) (simp split: option.splits prod.splits)

lemma replaceAll_Cons_None: "m (c # r) = None \<Longrightarrow> replaceAll m (c # r) = c # replaceAll m r"
  by (subst replaceAll.simps) simp

lemma replaceAll_Some:
  "m s = Some (rep, rest) \<Longrightarrow> length rest < length s \<Longrightarrow>
   replaceAll m s = rep @ replaceAll m rest"
  by (subst replaceAll.simps) simp

lemma replaceAll_skip:
  assumes fires: "\<And>s. m s \<noteq> None \<Longrightarrow> s \<noteq> [] \<and> P (hd s)"
    and "\<forall>c \<in> set u. \<not> P c"
  shows "replaceAll m (u @ s) = u @ replaceAll m s"
  using assms(2)
proof (induction u)
  case Nil
  then show ?case by simp
next
  case (Cons c u)
  have "m (c # u @ s) = None"
  proof (rule ccontr)
    assume "m (c # u @ s) \<noteq> None"
    then have "P (hd (c # u @ s))" using fires by blast
    then show False using Cons.prems by simp
  qed
  then show ?case
    using Cons by (simp add: replaceAll_Cons_None)
qed

lemma replaceAll_id:
  assumes "\<And>s. m s \<noteq> None \<Longrightarrow> s \<noteq> [] \<and> P (hd s)"
    and "\<forall>c \<in> set u. \<not> P c"
  shows "replaceAll m u = u"
  using replaceAll_skip [of m P u "[]"] assms by (simp add: replaceAll_Nil)

lemma replaceAll_matchChar: "replaceAll (matchChar P) s = filter (\<lambda>c. \<not> P c) s"
proof (induction s)
  case Nil
  show ?case by (simp add: replaceAll_Nil)
next
  case (Cons c s)
  show ?case
  proof (cases "P c")
    case True
    then have "matchChar P (c # s) = Some ([], s)" by (simp add: matchChar_def)
    then have "replaceAll (matchChar P) (c # s) = [] @ replaceAll (matchChar P) s"
      by (rule replaceAll_Some) simp
    with True Cons show ?thesis by simp
  next
    case False
    then have "matchChar P (c # s) = None" by (simp add: matchChar_def)
    with False Cons show ?thesis by (simp add: replaceAll_Cons_None)
  qed
qed

lemma replaceAll_subset:
  assumes closed: "\<And>s rep rest. m s = Some (rep, rest) \<Longrightarrow> set rep \<subseteq> set s \<and> set rest \<subseteq> set s"
  shows "set (replaceAll m s) \<subseteq> set s"
proof (induction "length s" arbitrary: s rule: less_induct)
  case less
  have keep: "set (replaceAll m r) \<subseteq> set r" if "s = c # r" for c r
    using less [of r] that by simp
  show ?case
  proof (cases "m s")
    case None
    then show ?thesis
      using keep by (cases s) (auto simp: replaceAll_Nil replaceAll_Cons_None)
  next
    case (Some a)
    obtain rep rest where a: "a = (rep, rest)" by (cases a)
    show ?thesis
    proof (cases "length rest < length s")
      case True
      have "replaceAll m s = rep @ replaceAll m rest"
        using Some a True by (simp add: replaceAll_Some)
      moreover have "set (replaceAll m rest) \<subseteq> set rest"
        using less [of rest] True by simp
      ultimately show ?thesis
        using closed [of s rep rest] Some a by auto
    next
      case False
      show ?thesis
      proof (cases s)
        case Nil
        then show ?thesis by (simp add: replaceAll_Nil)
      next
        case (Cons c r)
        have "replaceAll m s = c # replaceAll m r"
          using Some a False Cons by (subst replaceAll.simps) simp
        then show ?thesis using keep [of c r] Cons by auto
      qed
    qed
  qed
qed

lemma fires_reBold: "reBold s \<noteq> None \<Longrightarrow> s \<noteq> [] \<and> hd s = CHR ''*''"
  by (auto simp: reBold_def split: list.splits if_splits)

lemma headerTry_fires: "headerTry n s \<noteq> None \<Longrightarrow> s \<noteq> [] \<and> hd s = CHR ''#''"
  by (induction n) (cases s; auto split: if_splits)+

lemma fires_reHeader: "reHeader s \<noteq> None \<Longrightarrow> s \<noteq> [] \<and> hd s = CHR ''#''"
  unfolding reHeader_def by (rule headerTry_fires)

lemma fires_reLink: "reLink s \<noteq> None \<Longrightarrow> s \<noteq> [] \<and> hd s = CHR ''[''"
  by (cases s) (auto simp: reLink_def split: if_splits)

lemma closed_reBold: "reBold s = Some (rep, rest) \<Longrightarrow> set rep \<subseteq> set s \<and> set rest \<subseteq> set s"
  by (auto simp: reBold_def split: list.splits if_splits)

lemma closed_headerTry: "headerTry n s = Some (rep, rest) \<Longrightarrow> set rep \<subseteq> set s \<and> set rest \<subseteq> set s"
  by (induction n) (auto split: if_splits dest: in_set_dropD)


lemma closed_reLink:
  assumes m: "reLink s = Some (rep, rest)"
  shows "set rep \<subseteq> set s \<and> set rest \<subseteq> set s"
proof (cases s)
  case Nil
  then show ?thesis using m by (simp add: reLink_def)
next
  case (Cons c r)
  let ?r1 = "dropWhile (\<lambda>x. x \<noteq> CHR '']'') r"
  from m Cons obtain a b r2 where r1: "?r1 = a # b # r2"
    and rep: "rep = takeWhile (\<lambda>x. x \<noteq> CHR '']'') r"
    and rest: "\<exists>d. dropWhile (\<lambda>x. x \<noteq> CHR '')'') r2 = d # rest"
    by (auto simp: reLink_def Let_def split: if_splits list.splits)
  have "set rep \<subseteq> set r"
    using rep by (auto dest: set_takeWhileD)
  moreover have "set r2 \<subseteq> set r"
    using r1 set_dropWhileD [of _ "\<lambda>x. x \<noteq> CHR '']''" r] by auto
  moreover have "set rest \<subseteq> set r2"
    using rest set_dropWhileD [of _ "\<lambda>x. x \<noteq> CHR '')''" r2] by auto
  ultimately show ?thesis using Cons by auto
qed

lemma dropWhile_rev_dropWhile:
  "dropWhile P (rev (dropWhile P (rev (dropWhile P s)))) = rev (dropWhile P (rev (dropWhile P s)))"
  by (metis (no_types, lifting) dropWhile_eq_self_iff dropWhile_last
    hd_dropWhile hd_rev last_in_set last_rev rev.simps(1))

lemma trim_trim: "trim (trim s) = trim s"
  by (simp add: trim_def dropWhile_rev_dropWhile)

lemma set_trim: "set (trim s) \<subseteq> set s"
  by (auto simp: trim_def dest!: set_dropWhileD)

lemma length_trim: "length (trim s) \<le> length s"
proof -
  have "length (dropWhile isWhiteSpace (rev (dropWhile isWhiteSpace s)))
          \<le> length (rev (dropWhile isWhiteSpace s))"
    by (rule length_dropWhile_le)
  also have "\<dots> \<le> length s"
    by (simp add: length_dropWhile_le)
  finally show ?thesis by (simp add: trim_def)
qed

lemma replaceAll_shrinks:
  assumes shrink: "\<And>s rep rest. m s = Some (rep, rest) \<Longrightarrow> length rep + length rest < length s"
  shows "length (replaceAll m s) \<le> length s
         \<and> (length (replaceAll m s) = length s \<longrightarrow> replaceAll m s = s)"
proof (induction "length s" arbitrary: s rule: less_induct)
  case less
  show ?case
  proof (cases "m s")
    case None
    show ?thesis
    proof (cases s)
      case Nil
      then show ?thesis by (simp add: replaceAll_Nil)
    next
      case (Cons c r)
      then have "replaceAll m s = c # replaceAll m r"
        using None by (simp add: replaceAll_Cons_None)
      then show ?thesis using less [of r] Cons by simp
    qed
  next
    case (Some a)
    obtain rep rest where a: "a = (rep, rest)" by (cases a)
    have lt: "length rep + length rest < length s"
      using shrink Some a by simp
    then have "replaceAll m s = rep @ replaceAll m rest"
      using Some a by (simp add: replaceAll_Some)
    moreover have "length (replaceAll m rest) \<le> length rest"
      using less [of rest] lt by simp
    ultimately show ?thesis using lt by simp
  qed
qed

lemma shrink_headerTry:
  "headerTry n s = Some (rep, rest) \<Longrightarrow> length rep + length rest < length s"
proof (induction n)
  case 0
  then show ?case by simp
next
  case (Suc n)
  define C where
    "C \<longleftrightarrow> take (Suc n) s = replicate (Suc n) (CHR ''#'')
           \<and> (case drop (Suc n) s of [] \<Rightarrow> False | w # r \<Rightarrow> isWhiteSpace w)"
  have eq: "headerTry (Suc n) s = (if C then Some ([], drop (Suc (Suc n)) s) else headerTry n s)"
    unfolding C_def by (simp only: headerTry.simps)
  show ?case
  proof (cases C)
    case True
    then have "length (take (Suc n) s) = length (replicate (Suc n) (CHR ''#''))"
      unfolding C_def by (simp only:)
    then have "Suc n \<le> length s" by simp
    moreover have "rep = []" "rest = drop (Suc (Suc n)) s"
      using True Suc.prems eq by simp_all
    ultimately show ?thesis by simp
  next
    case False
    then have "headerTry n s = Some (rep, rest)"
      using Suc.prems eq by simp
    then show ?thesis by (rule Suc.IH)
  qed
qed

lemma shrink_reLink:
  assumes m: "reLink s = Some (rep, rest)"
  shows "length rep + length rest < length s"
proof (cases s)
  case Nil
  then show ?thesis using m by (simp add: reLink_def)
next
  case (Cons c r)
  let ?P = "\<lambda>x. x \<noteq> CHR '']''" and ?Q = "\<lambda>x. x \<noteq> CHR '')''"
  from m Cons obtain a b r2 where r1: "dropWhile ?P r = a # b # r2"
    and rep: "rep = takeWhile ?P r"
    and rest: "\<exists>d. dropWhile ?Q r2 = d # rest"
    by (auto simp: reLink_def Let_def split: if_splits list.splits)
  have "length r = length rep + length (dropWhile ?P r)"
    using rep by (metis length_append takeWhile_dropWhile_id)
  moreover have "length (dropWhile ?Q r2) \<le> length r2"
    by (rule length_dropWhile_le)
  ultimately show ?thesis using r1 rest Cons by auto
qed

lemma ws_not_hash: "isWhiteSpace w \<Longrightarrow> w \<noteq> CHR ''#''"
  by (auto simp: isWhiteSpace_def)

lemma headerTry_run:
  assumes "1 \<le> k" "isWhiteSpace w"
  shows "k \<le> n \<Longrightarrow> headerTry n (replicate k (CHR ''#'') @ w # v) = Some ([], v)"
proof (induction n)
  case 0
  with assms show ?case by simp
next
  case (Suc n)
  let ?s = "replicate k (CHR ''#'') @ w # v"
  show ?case
  proof (cases "k = Suc n")
    case True
    then show ?thesis using assms by simp
  next
    case False
    then have kn: "k \<le> n" using Suc.prems by simp
    have "take (Suc n) ?s \<noteq> replicate (Suc n) (CHR ''#'')"
    proof
      assume eq: "take (Suc n) ?s = replicate (Suc n) (CHR ''#'')"
      have "take (Suc n) ?s ! k = w"
        using kn by (simp add: nth_append)
      moreover have "replicate (Suc n) (CHR ''#'') ! k = CHR ''#''"
      proof (rule nth_replicate)
        show "k < Suc n" using kn by simp
      qed
      ultimately show False using eq ws_not_hash [OF assms(2)] by simp
    qed
    then show ?thesis using Suc.IH kn by simp
  qed
qed


lemma fires_matchChar: "matchChar P s \<noteq> None \<Longrightarrow> s \<noteq> [] \<and> P (hd s)"
  by (cases s) (auto simp: matchChar_def split: if_splits)

lemma reBold_id: "CHR ''*'' \<notin> set s \<Longrightarrow> replaceAll reBold s = s"
  using replaceAll_id [of reBold "\<lambda>c. c = CHR ''*''" s] fires_reBold by blast

lemma reHeader_id: "CHR ''#'' \<notin> set s \<Longrightarrow> replaceAll reHeader s = s"
  using replaceAll_id [of reHeader "\<lambda>c. c = CHR ''#''" s] fires_reHeader by blast

lemma reLink_id: "CHR ''['' \<notin> set s \<Longrightarrow> replaceAll reLink s = s"
  using replaceAll_id [of reLink "\<lambda>c. c = CHR ''[''" s] fires_reLink by blast

lemma matchChar_id: "\<forall>c \<in> set s. \<not> P c \<Longrightarrow> replaceAll (matchChar P) s = s"
  by (simp add: replaceAll_matchChar filter_id_conv)

lemma removal_passes_id:
  assumes "CHR ''<'' \<notin> set s" "CHR ''>'' \<notin> set s" "CHR ''*'' \<notin> set s" "CHR 0x60 \<notin> set s"
  shows "replaceAll reTick (replaceAll reStar (replaceAll reBold (replaceAll reTag s))) = s"
proof -
  have "replaceAll reTag s = s"
    unfolding reTag_def using assms(1,2) by (intro matchChar_id) blast
  moreover have "replaceAll reBold s = s"
    using assms(3) by (rule reBold_id)
  moreover have "replaceAll reStar s = s"
    unfolding reStar_def using assms(3) by (intro matchChar_id) blast
  moreover have "replaceAll reTick s = s"
    unfolding reTick_def using assms(4) by (intro matchChar_id) blast
  ultimately show ?thesis by simp
qed

lemma set_matchChar: "set (replaceAll (matchChar P) s) = {c \<in> set s. \<not> P c}"
  by (simp add: replaceAll_matchChar)

lemma removal_passes_chars:
  "set (replaceAll reTick (replaceAll reStar (replaceAll reBold (replaceAll reTag s))))
     \<subseteq> set s - {CHR ''<'', CHR ''>'', CHR ''*'', CHR 0x60}"
proof
  fix c
  let ?t = "replaceAll reTag s" and ?b = "replaceAll reBold (replaceAll reTag s)"
  assume "c \<in> set (replaceAll reTick (replaceAll reStar ?b))"
  then have tick: "c \<noteq> CHR 0x60" and "c \<in> set (replaceAll reStar ?b)"
    unfolding reTick_def set_matchChar by simp_all
  then have star: "c \<noteq> CHR ''*''" and "c \<in> set ?b"
    unfolding reStar_def set_matchChar by simp_all
  moreover have "set ?b \<subseteq> set ?t"
    by (rule replaceAll_subset) (rule closed_reBold)
  ultimately have "c \<in> set ?t" by blast
  then have "c \<in> set s" and "c \<noteq> CHR ''<''" and "c \<noteq> CHR ''>''"
    unfolding reTag_def set_matchChar by simp_all
  with tick star show "c \<in> set s - {CHR ''<'', CHR ''>'', CHR ''*'', CHR 0x60}"
    by simp
qed

lemma set_reHeader: "set (replaceAll reHeader s) \<subseteq> set s"
  by (rule replaceAll_subset) (simp add: reHeader_def closed_headerTry)

lemma set_reLink: "set (replaceAll reLink s) \<subseteq> set s"
  by (rule replaceAll_subset) (rule closed_reLink)

lemma sanitizeText_chars:
  "set (sanitizeText x) \<subseteq> set x - {CHR ''<'', CHR ''>'', CHR ''*'', CHR 0x60}"
  unfolding sanitizeText_def
  using set_trim set_reLink set_reHeader removal_passes_chars
  by (meson order_trans)

lemma sanitizeText_fixed:
  assumes "replaceAll reHeader (sanitizeText x) = sanitizeText x"
    and "replaceAll reLink (sanitizeText x) = sanitizeText x"
  shows "sanitizeText (sanitizeText x) = sanitizeText x"
proof -
  let ?y = "sanitizeText x"
  have "replaceAll reTick (replaceAll reStar (replaceAll reBold (replaceAll reTag ?y))) = ?y"
    using sanitizeText_chars [of x] by (intro removal_passes_id) auto
  then have "sanitizeText ?y = trim ?y"
    using assms by (simp add: sanitizeText_def [of ?y])
  also have "\<dots> = ?y"
    by (simp add: sanitizeText_def [of x] trim_trim)
  finally show ?thesis .
qed

lemma length_reHeader:
  "length (replaceAll reHeader s) \<le> length s
   \<and> (length (replaceAll reHeader s) = length s \<longrightarrow> replaceAll reHeader s = s)"
  by (rule replaceAll_shrinks) (simp add: reHeader_def shrink_headerTry)

lemma length_reLink:
  "length (replaceAll reLink s) \<le> length s
   \<and> (length (replaceAll reLink s) = length s \<longrightarrow> replaceAll reLink s = s)"
  by (rule replaceAll_shrinks) (rule shrink_reLink)

lemma sanitizeText_fixed_conv:
  assumes idem: "sanitizeText (sanitizeText x) = sanitizeText x"
  shows "replaceAll reHeader (sanitizeText x) = sanitizeText x
         \<and> replaceAll reLink (sanitizeText x) = sanitizeText x"
proof -
  let ?y = "sanitizeText x"
  have pre: "replaceAll reTick (replaceAll reStar (replaceAll reBold (replaceAll reTag ?y))) = ?y"
    using sanitizeText_chars [of x] by (intro removal_passes_id) auto
  have eq: "trim (replaceAll reLink (replaceAll reHeader ?y)) = ?y"
    using idem pre by (simp add: sanitizeText_def [of ?y])
  have "length ?y \<le> length (replaceAll reLink (replaceAll reHeader ?y))"
    using length_trim [of "replaceAll reLink (replaceAll reHeader ?y)"] eq by simp
  moreover have "length (replaceAll reLink (replaceAll reHeader ?y)) \<le> length (replaceAll reHeader ?y)"
    using length_reLink by blast
  moreover have "length (replaceAll reHeader ?y) \<le> length ?y"
    using length_reHeader by blast
  ultimately have h: "length (replaceAll reHeader ?y) = length ?y"
    and l: "length (replaceAll reLink (replaceAll reHeader ?y)) = length (replaceAll reHeader ?y)"
    by simp_all
  have "replaceAll reHeader ?y = ?y"
    using h length_reHeader by blast
  moreover have "replaceAll reLink (replaceAll reHeader ?y) = replaceAll reHeader ?y"
    using l length_reLink by blast
  ultimately show ?thesis by simp
qed

lemma sanitizeText_no_hash_bracket:
  assumes "CHR ''#'' \<notin> set x" "CHR ''['' \<notin> set x"
  shows "sanitizeText (sanitizeText x) = sanitizeText x"
proof (rule sanitizeText_fixed)
  have "CHR ''#'' \<notin> set (sanitizeText x)" "CHR ''['' \<notin> set (sanitizeText x)"
    using assms sanitizeText_chars [of x] by auto
  then show "replaceAll reHeader (sanitizeText x) = sanitizeText x"
    "replaceAll reLink (sanitizeText x) = sanitizeText x"
    by (simp_all add: reHeader_id reLink_id)
qed

lemma replaceAll_filter:
  assumes del: "\<And>s rep rest. m s = Some (rep, rest) \<Longrightarrow> filter P rep @ filter P rest = filter P s"
  shows "filter P (replaceAll m s) = filter P s"
proof (induction "length s" arbitrary: s rule: less_induct)
  case less
  have keep: "filter P (replaceAll m r) = filter P r" if "s = c # r" for c r
    using less [of r] that by simp
  show ?case
  proof (cases "m s")
    case None
    then show ?thesis
      using keep by (cases s) (auto simp: replaceAll_Nil replaceAll_Cons_None)
  next
    case (Some a)
    obtain rep rest where a: "a = (rep, rest)" by (cases a)
    show ?thesis
    proof (cases "length rest < length s")
      case True
      have "replaceAll m s = rep @ replaceAll m rest"
        using Some a True by (simp add: replaceAll_Some)
      moreover have "filter P (replaceAll m rest) = filter P rest"
        using less [of rest] True by simp
      ultimately show ?thesis
        using del [of s rep rest] Some a by simp
    next
      case False
      show ?thesis
      proof (cases s)
        case Nil
        then show ?thesis by (simp add: replaceAll_Nil)
      next
        case (Cons c r)
        have "replaceAll m s = c # replaceAll m r"
          using Some a False Cons by (subst replaceAll.simps) simp
        then show ?thesis using keep [of c r] Cons by simp
      qed
    qed
  qed
qed

lemma reBold_deletes_stars:
  "reBold s = Some (rep, rest) \<Longrightarrow>
   filter (\<lambda>c. c \<noteq> CHR ''*'') rep @ filter (\<lambda>c. c \<noteq> CHR ''*'') rest
     = filter (\<lambda>c. c \<noteq> CHR ''*'') s"
  by (auto simp: reBold_def split: list.splits if_splits)

lemma removal_passes_kept:
  "replaceAll reTick (replaceAll reStar (replaceAll reBold (replaceAll reTag s))) = kept s"
proof -
  have "replaceAll reStar (replaceAll reBold (replaceAll reTag s))
          = filter (\<lambda>c. c \<noteq> CHR ''*'') (replaceAll reBold (replaceAll reTag s))"
    by (simp add: reStar_def replaceAll_matchChar)
  also have "\<dots> = filter (\<lambda>c. c \<noteq> CHR ''*'') (replaceAll reTag s)"
    by (rule replaceAll_filter) (rule reBold_deletes_stars)
  finally show ?thesis
    by (simp add: reTick_def reTag_def replaceAll_matchChar kept_def deleted_def conj_ac)
qed

lemma sanitizeText_kept:
  "sanitizeText x = trim (replaceAll reLink (replaceAll reHeader (kept x)))"
  by (simp add: sanitizeText_def removal_passes_kept)

lemma headerTry_Some:
  "headerTry n s = Some (rep, rest) \<Longrightarrow>
   rep = [] \<and> (\<exists>k w. 1 \<le> k \<and> k \<le> n \<and> isWhiteSpace w \<and> s = replicate k (CHR ''#'') @ w # rest)"
proof (induction n)
  case 0
  then show ?case by simp
next
  case (Suc n)
  define C where
    "C \<longleftrightarrow> take (Suc n) s = replicate (Suc n) (CHR ''#'')
           \<and> (case drop (Suc n) s of [] \<Rightarrow> False | w # r \<Rightarrow> isWhiteSpace w)"
  have eq: "headerTry (Suc n) s = (if C then Some ([], drop (Suc (Suc n)) s) else headerTry n s)"
    unfolding C_def by (simp only: headerTry.simps)
  show ?case
  proof (cases C)
    case True
    then have t: "take (Suc n) s = replicate (Suc n) (CHR ''#'')"
      unfolding C_def by (simp only:)
    from True obtain w r where d: "drop (Suc n) s = w # r" and w: "isWhiteSpace w"
      unfolding C_def by (auto split: list.splits)
    have r: "rep = []" "rest = drop (Suc (Suc n)) s"
      using True Suc.prems eq by simp_all
    have "drop (Suc (Suc n)) s = drop 1 (drop (Suc n) s)"
      by simp
    then have "rest = r" using r d by simp
    moreover have "s = take (Suc n) s @ drop (Suc n) s"
      by simp
    ultimately have "s = replicate (Suc n) (CHR ''#'') @ w # rest"
      using t d by simp
    then show ?thesis using r(1) w by (intro conjI exI [of _ "Suc n"] exI [of _ w]) simp_all
  next
    case False
    then have "headerTry n s = Some (rep, rest)"
      using Suc.prems eq by simp
    then have "rep = [] \<and> (\<exists>k w. 1 \<le> k \<and> k \<le> n \<and> isWhiteSpace w
                 \<and> s = replicate k (CHR ''#'') @ w # rest)"
      by (rule Suc.IH)
    then show ?thesis by (metis le_Suc_eq)
  qed
qed

lemma reHeader_Some:
  assumes "reHeader s = Some (rep, rest)"
  obtains k w where "rep = []" "1 \<le> k" "k \<le> 6" "isWhiteSpace w"
    "s = replicate k (CHR ''#'') @ w # rest"
proof -
  have "headerTry 6 s = Some (rep, rest)"
    using assms by (simp only: reHeader_def)
  from headerTry_Some [OF this] show ?thesis
    using that by blast
qed

lemma reHeader_run:
  assumes "1 \<le> k" "k \<le> 6" "isWhiteSpace w"
  shows "reHeader (replicate k (CHR ''#'') @ w # v) = Some ([], v)"
  unfolding reHeader_def using assms(1,3,2) by (rule headerTry_run)

lemma reHeader_append:
  assumes "a \<noteq> []" "last a \<noteq> CHR ''#''"
  shows "reHeader (a @ s) =
           (case reHeader a of None \<Rightarrow> None | Some (rep, rest) \<Rightarrow> Some (rep, rest @ s))"
proof (cases "reHeader a")
  case (Some m)
  obtain rep rest where m: "m = (rep, rest)" by (cases m)
  have "reHeader a = Some (rep, rest)" using Some m by simp
  then obtain k w where rep: "rep = []" and k: "1 \<le> k" "k \<le> 6" and w: "isWhiteSpace w"
    and a: "a = replicate k (CHR ''#'') @ w # rest"
    by (rule reHeader_Some)
  have "a @ s = replicate k (CHR ''#'') @ w # (rest @ s)"
    by (subst a) simp
  then have "reHeader (a @ s) = Some ([], rest @ s)"
    using reHeader_run [OF k w, of "rest @ s"] by (simp only:)
  then show ?thesis using Some m rep by simp
next
  case None
  have "reHeader (a @ s) = None"
  proof (rule ccontr)
    assume "reHeader (a @ s) \<noteq> None"
    then obtain rep rest where "reHeader (a @ s) = Some (rep, rest)" by auto
    then obtain k w where k: "1 \<le> k" "k \<le> 6" and w: "isWhiteSpace w"
      and eq: "a @ s = replicate k (CHR ''#'') @ w # rest"
      by (rule reHeader_Some)
    from eq have "\<exists>us. (a = replicate k (CHR ''#'') @ us \<and> us @ s = w # rest)
                    \<or> (a @ us = replicate k (CHR ''#'') \<and> s = us @ w # rest)"
      by (simp only: append_eq_append_conv2)
    then obtain us where
      "(a = replicate k (CHR ''#'') @ us \<and> us @ s = w # rest)
       \<or> (a @ us = replicate k (CHR ''#'') \<and> s = us @ w # rest)"
      by blast
    then show False
    proof
      assume h: "a = replicate k (CHR ''#'') @ us \<and> us @ s = w # rest"
      then have h1: "a = replicate k (CHR ''#'') @ us" and h2: "us @ s = w # rest"
        by blast+
      show False
      proof (cases us)
        case Nil
        then have "a = replicate k (CHR ''#'')" using h1 by simp
        moreover have "last (replicate k (CHR ''#'')) = CHR ''#''"
          using k(1) by (cases k) simp_all
        ultimately show False using assms(2) by simp
      next
        case (Cons c us')
        then have "c = w" using h2 by simp
        then have "a = replicate k (CHR ''#'') @ w # us'" using h1 Cons by simp
        then have "reHeader a = Some ([], us')"
          using reHeader_run [OF k w, of us'] by (simp only:)
        with None show False by simp
      qed
    next
      assume h: "a @ us = replicate k (CHR ''#'') \<and> s = us @ w # rest"
      then have h1: "a @ us = replicate k (CHR ''#'')" by blast
      have "last a \<in> set a" using assms(1) by (rule last_in_set)
      then have "last a \<in> set (a @ us)" by simp
      then have "last a \<in> set (replicate k (CHR ''#''))" by (simp only: h1)
      then have "last a = CHR ''#''" by (simp split: if_splits)
      with assms(2) show False by simp
    qed
  qed
  with None show ?thesis by simp
qed

lemma header_split:
  assumes "\<not> (a \<noteq> [] \<and> last a = CHR ''#'')"
  shows "replaceAll reHeader (a @ s) = replaceAll reHeader a @ replaceAll reHeader s"
  using assms
proof (induction "length a" arbitrary: a rule: less_induct)
  case less
  show ?case
  proof (cases a)
    case Nil
    then show ?thesis by (simp add: replaceAll_Nil)
  next
    case (Cons c r)
    then have ne: "a \<noteq> []" and la: "last a \<noteq> CHR ''#''"
      using less.prems by auto
    note app = reHeader_append [OF ne la, of s]
    show ?thesis
    proof (cases "reHeader a")
      case None
      then have "reHeader (c # r @ s) = None" "reHeader (c # r) = None"
        using app Cons by simp_all
      then have "replaceAll reHeader (a @ s) = c # replaceAll reHeader (r @ s)"
        and "replaceAll reHeader a = c # replaceAll reHeader r"
        using Cons by (simp_all add: replaceAll_Cons_None)
      moreover have "replaceAll reHeader (r @ s) = replaceAll reHeader r @ replaceAll reHeader s"
        using less.hyps [of r] Cons la by (cases r) (simp_all add: replaceAll_Nil)
      ultimately show ?thesis by simp
    next
      case (Some m)
      obtain rep rest where m: "m = (rep, rest)" by (cases m)
      have "reHeader a = Some (rep, rest)" using Some m by simp
      then obtain k w where rep: "rep = []" and k: "1 \<le> k"
        and a: "a = replicate k (CHR ''#'') @ w # rest"
        by (rule reHeader_Some)
      have len: "length rest < length a" using a by simp
      have "replaceAll reHeader a = rep @ replaceAll reHeader rest"
        using Some m len by (intro replaceAll_Some) simp_all
      moreover have "reHeader (a @ s) = Some (rep, rest @ s)"
        using app Some m by simp
      then have "replaceAll reHeader (a @ s) = rep @ replaceAll reHeader (rest @ s)"
        using len by (intro replaceAll_Some) simp_all
      moreover have "\<not> (rest \<noteq> [] \<and> last rest = CHR ''#'')"
        using a la by auto
      then have "replaceAll reHeader (rest @ s) = replaceAll reHeader rest @ replaceAll reHeader s"
        using less.hyps [of rest] len by simp
      ultimately show ?thesis by simp
    qed
  qed
qed

lemma kept_marker:
  assumes "isWhiteSpace w"
  shows "kept (u @ replicate k (CHR ''#'') @ w # v) = kept u @ replicate k (CHR ''#'') @ w # kept v"
proof -
  have "\<not> deleted w" using assms by (auto simp: isWhiteSpace_def deleted_def)
  moreover have "\<not> deleted (CHR ''#'')" by (simp add: deleted_def)
  ultimately show ?thesis by (simp add: kept_def)
qed

lemma sanitize_marker_deleted:
  assumes u: "\<not> endsWithHash u" and k: "1 \<le> k" "k \<le> 6" and w: "isWhiteSpace w"
  shows "sanitizeText (u @ replicate k (CHR ''#'') @ w # v) = sanitizeText (u @ v)"
proof -
  let ?m = "replicate k (CHR ''#'') @ w # kept v"
  have b: "\<not> (kept u \<noteq> [] \<and> last (kept u) = CHR ''#'')"
    using u by (simp add: endsWithHash_def)
  have "reHeader ?m = Some ([], kept v)"
    using k w by (rule reHeader_run)
  then have m: "replaceAll reHeader ?m = [] @ replaceAll reHeader (kept v)"
    by (rule replaceAll_Some) simp
  have "replaceAll reHeader (kept u @ ?m) = replaceAll reHeader (kept u) @ replaceAll reHeader ?m"
    using b by (rule header_split)
  also have "\<dots> = replaceAll reHeader (kept u) @ replaceAll reHeader (kept v)"
    using m by simp
  also have "\<dots> = replaceAll reHeader (kept u @ kept v)"
    using b by (rule header_split [symmetric])
  finally have "replaceAll reHeader (kept (u @ replicate k (CHR ''#'') @ w # v))
                  = replaceAll reHeader (kept (u @ v))"
    using kept_marker [OF w, of u k v] by (simp add: kept_def)
  then show ?thesis by (simp only: sanitizeText_kept)
qed

lemma sanitize_plain:
  assumes "\<forall>c \<in> set t. \<not> markup c"
  shows "sanitizeText t = trim t"
proof -
  have "replaceAll reTick (replaceAll reStar (replaceAll reBold (replaceAll reTag t))) = t"
    using assms by (intro removal_passes_id) (auto simp: markup_def)
  moreover have "replaceAll reHeader t = t"
    using assms by (intro reHeader_id) (auto simp: markup_def)
  moreover have "replaceAll reLink t = t"
    using assms by (intro reLink_id) (auto simp: markup_def)
  ultimately show ?thesis by (simp add: sanitizeText_def)
qed

text \<open>
  C8, as the code has it. The sanitizer removes a heading marker, one to six \<open>#\<close>
  followed by a white-space character, wherever it stands, at the start of a line or in
  the middle of one: the result is what it would be without the marker. The marker is the
  whole run of \<open>#\<close>: in the text the heading pass sees, no further \<open>#\<close> stands before
  it. A text without \<open><\<close>, \<open>>\<close>, \<open>*\<close>, backtick, \<open>#\<close> and \<open>[\<close> is only trimmed.
\<close>

theorem heading_markers_removed_anywhere:
  "(\<not> endsWithHash u \<and> 1 \<le> k \<and> k \<le> 6 \<and> isWhiteSpace w \<longrightarrow>
      sanitizeText (u @ replicate k (CHR ''#'') @ w # v) = sanitizeText (u @ v))
   \<and> ((\<forall>c \<in> set t. \<not> markup c) \<longrightarrow> sanitizeText t = trim t)"
  using sanitize_marker_deleted [of u k w v] sanitize_plain [of t] by blast

theorem heading_markers_witness:
  "\<not> endsWithHash ''# a ''
   \<and> sanitizeText (''# a '' @ replicate 1 (CHR ''#'') @ CHR '' '' # ''b'') =
       sanitizeText (''# a '' @ ''b'')
   \<and> sanitizeText ''# a # b'' = ''a b''
   \<and> sanitizeText ''a b'' = trim ''a b''"
proof -
  have u: "\<not> endsWithHash ''# a ''"
    by (simp add: endsWithHash_def kept_def deleted_def)
  have k: "(1::nat) \<le> 1" "(1::nat) \<le> 6" and w: "isWhiteSpace (CHR '' '')"
    by (simp_all add: isWhiteSpace_def)
  have p: "\<forall>c \<in> set ''a b''. \<not> markup c"
    by (simp add: markup_def)
  note inst = heading_markers_removed_anywhere [of "''# a ''" 1 "CHR '' ''" "''b''" "''a b''"]
  have a: "sanitizeText (''# a '' @ replicate 1 (CHR ''#'') @ CHR '' '' # ''b'') =
           sanitizeText (''# a '' @ ''b'')"
    using inst u k w by blast
  have b: "sanitizeText ''a b'' = trim ''a b''"
    using inst p by blast
  have c: "sanitizeText ''# a # b'' = ''a b''"
    by code_simp
  show ?thesis
    using u a b c by (intro conjI)
qed

text \<open>
  The claim as stated fails: a \<open>#\<close> and a space in the middle of a line are removed.
\<close>

theorem heading_midline_counterexample:
  "sanitizeText ''a # b'' = ''a b''"
  by code_simp

text \<open>
  C9, as the code has it. Sanitizing twice gives the same as sanitizing once exactly
  when the sanitized text holds no match of the heading pattern and no match of the link
  pattern any more; this is so for every text without \<open>#\<close> and without \<open>[\<close>.
\<close>

theorem sanitizeText_idempotent_iff:
  "(sanitizeText (sanitizeText x) = sanitizeText x \<longleftrightarrow>
      replaceAll reHeader (sanitizeText x) = sanitizeText x
      \<and> replaceAll reLink (sanitizeText x) = sanitizeText x)
   \<and> (CHR ''#'' \<notin> set x \<and> CHR ''['' \<notin> set x \<longrightarrow>
        sanitizeText (sanitizeText x) = sanitizeText x)"
  using sanitizeText_fixed [of x] sanitizeText_fixed_conv [of x]
    sanitizeText_no_hash_bracket [of x]
  by blast

theorem sanitizeText_idempotent_witness:
  "CHR ''#'' \<notin> set ''**bold** and <i>text</i>''
   \<and> CHR ''['' \<notin> set ''**bold** and <i>text</i>''
   \<and> sanitizeText (sanitizeText ''**bold** and <i>text</i>'') =
       sanitizeText ''**bold** and <i>text</i>''"
proof -
  have h: "CHR ''#'' \<notin> set ''**bold** and <i>text</i>''"
    "CHR ''['' \<notin> set ''**bold** and <i>text</i>''"
    by simp_all
  then show ?thesis
    using sanitizeText_idempotent_iff [of "''**bold** and <i>text</i>''"] by blast
qed

text \<open>
  The claim as stated fails. Seven \<open>#\<close> and two spaces leave \<open># x\<close>, and a link whose
  label is \<open>#\<close> leaves \<open># x\<close> too; a second pass removes the marker.
\<close>

theorem sanitizeText_idempotent_counterexample:
  "sanitizeText ''#######  x'' = ''# x''
   \<and> sanitizeText (sanitizeText ''#######  x'') = ''x''
   \<and> sanitizeText ''[#](u) x'' = ''# x''
   \<and> sanitizeText (sanitizeText ''[#](u) x'') = ''x''"
  by code_simp

end
